theory Spec2Isabelle
  imports Main "HOL-Library.Sublist" "HOL-Library.Char_ord" "HOL-Library.List_Lexorder"
begin

text \<open>
  A model of \<open>src/shadowbox/server/outline_shadowsocks_server.ts\<close>: the class
  \<open>OutlineShadowsocksServer\<close>, which writes the configuration file of \<open>outline-ss-server\<close>
  from a list of access keys, starts the server as a subprocess, tells it to reload with
  \<open>SIGHUP\<close> and starts it again whenever it exits. The object and everything around it
  (files, subprocesses, the calls made to libraries) are explicit state; what the file
  system and \<open>child_process.spawn\<close> answer to a call is an input.
\<close>

section \<open>Strings\<close>

text \<open>
  JavaScript strings are modelled as \<open>string\<close>. \<open>toLowerCase\<close> maps the letters
  \<open>A\<close> to \<open>Z\<close> to \<open>a\<close> to \<open>z\<close> and leaves every other character alone; the cipher test only
  looks for the ASCII suffixes \<open>gcm\<close> and \<open>poly1305\<close> in the lowered string, and no character
  outside ASCII lowers to one of their letters.
\<close>

definition toLowerChar :: "char \<Rightarrow> char" where
  "toLowerChar c =
     (case map_of (zip ''ABCDEFGHIJKLMNOPQRSTUVWXYZ'' ''abcdefghijklmnopqrstuvwxyz'') c of
        Some l \<Rightarrow> l
      | None \<Rightarrow> c)"

definition toLowerCase :: "string \<Rightarrow> string" where
  "toLowerCase s = map toLowerChar s"

text \<open>\<open>s.endsWith(search)\<close>: the last \<open>search.length\<close> characters of \<open>s\<close> are \<open>search\<close>.\<close>

definition endsWith :: "string \<Rightarrow> string \<Rightarrow> bool" where
  "endsWith s search =
     (length search \<le> length s \<and> drop (length s - length search) s = search)"

text \<open>\<open>xs.join(sep)\<close>.\<close>

fun join :: "string \<Rightarrow> string list \<Rightarrow> string" where
  "join sep [] = []"
| "join sep [x] = x"
| "join sep (x # y # ys) = x @ sep @ join sep (y # ys)"

text \<open>\<open>xs.indexOf(x)\<close> for an \<open>x\<close> that is in \<open>xs\<close>.\<close>

fun indexOf :: "'a \<Rightarrow> 'a list \<Rightarrow> nat" where
  "indexOf x [] = 0"
| "indexOf x (y # ys) = (if x = y then 0 else Suc (indexOf x ys))"

text \<open>Decimal rendering of a number, as a template literal or the YAML dumper prints it.\<close>

definition digit :: "nat \<Rightarrow> char" where
  "digit d = ''0123456789'' ! d"

function show_nat :: "nat \<Rightarrow> string" where
  "show_nat n = (if n < 10 then [digit n] else show_nat (n div 10) @ [digit (n mod 10)])"
  by pat_completeness auto
termination
  by (relation "measure (\<lambda>n. n)") auto

declare show_nat.simps [simp del]

definition show_int :: "int \<Rightarrow> string" where
  "show_int i = (if i < 0 then ''-'' @ show_nat (nat (- i)) else show_nat (nat i))"

text \<open>
  \<open>path.dirname\<close> on POSIX paths: the path up to the last slash that is followed by a
  segment; \<open>.\<close> when there is none, \<open>/\<close> for a segment right under the root.
\<close>

fun dirname_scan :: "string \<Rightarrow> nat \<Rightarrow> bool \<Rightarrow> nat option" where
  "dirname_scan path 0 matchedSlash = None"
| "dirname_scan path (Suc i) matchedSlash =
     (if path ! Suc i = CHR ''/''
      then (if \<not> matchedSlash then Some (Suc i) else dirname_scan path i matchedSlash)
      else dirname_scan path i False)"

definition dirname :: "string \<Rightarrow> string" where
  "dirname path =
     (if path = [] then ''.''
      else let hasRoot = (hd path = CHR ''/'')
           in case dirname_scan path (length path - 1) True of
                None \<Rightarrow> (if hasRoot then ''/'' else ''.'')
              | Some e \<Rightarrow> (if hasRoot \<and> e = 1 then ''//'' else take e path))"

section \<open>Access keys and the cipher test\<close>

text \<open>
  Modelled from the spec: the interface \<open>ShadowsocksAccessKey\<close> is declared in
  \<open>../model/shadowsocks_server\<close>, which is not among the sources. The data model gives a
  credential an identifier, a secret, a cipher suite name and transport parameters; the
  port stands for the latter. The field \<open>id\<close> is named \<open>key_id\<close> here. A key is an object:
  its \<open>address\<close> tells it from every other object, and two entries of a list with the
  same address are one object met twice.
\<close>

record ShadowsocksAccessKey =
  address :: nat
  key_id :: string
  port :: nat
  cipher :: string
  secret :: string

text \<open>The function \<open>isAeadCipher\<close> at the end of the source file.\<close>

definition isAeadCipher :: "string \<Rightarrow> bool" where
  "isAeadCipher cipherAlias =
     (let cipherAlias = toLowerCase cipherAlias
      in endsWith cipherAlias ''gcm'' \<or> endsWith cipherAlias ''poly1305'')"

text \<open>
  The specification's wording of the same test, for comparison with the code: a name
  ends in a suffix, case-insensitively, when one of its suffixes equals the given one up
  to the case of letters.
\<close>

definition equals_ignoring_case :: "string \<Rightarrow> string \<Rightarrow> bool" where
  "equals_ignoring_case a b = (map toLowerChar a = map toLowerChar b)"

definition ends_in_ignoring_case :: "string \<Rightarrow> string \<Rightarrow> bool" where
  "ends_in_ignoring_case name suf = (\<exists>t \<in> set (suffixes name). equals_ignoring_case t suf)"

definition spec_accepts_cipher :: "string \<Rightarrow> bool" where
  "spec_accepts_cipher name =
     (ends_in_ignoring_case name ''GCM'' \<or> ends_in_ignoring_case name ''Poly1305'')"

section \<open>The configuration text\<close>

text \<open>
  \<open>jsyaml.safeDump(keysJson, {sortKeys: true})\<close> writes a block mapping with the one field
  \<open>keys\<close>, holding a block sequence with one mapping per key, the fields of each mapping
  in the order of their names. The dumper is a library: how it quotes a string scalar is
  its own choice, taken here as the parameter \<open>sty\<close>. A number is written in decimal.
\<close>

datatype scalar = Str string | Num nat

definition key_props :: "ShadowsocksAccessKey \<Rightarrow> (string \<times> scalar) list" where
  "key_props k =
     [(''id'', Str (key_id k)), (''port'', Num (port k)),
      (''cipher'', Str (cipher k)), (''secret'', Str (secret k))]"

definition sortKeys :: "(string \<times> scalar) list \<Rightarrow> (string \<times> scalar) list" where
  "sortKeys props = sort_key fst props"

definition writeScalar :: "(string \<Rightarrow> string) \<Rightarrow> scalar \<Rightarrow> string" where
  "writeScalar sty v = (case v of Str s \<Rightarrow> sty s | Num n \<Rightarrow> show_nat n)"

definition newline :: string where
  "newline = [CHR 0x0A]"

fun writeBlockMapping :: "(string \<Rightarrow> string) \<Rightarrow> bool \<Rightarrow> (string \<times> scalar) list \<Rightarrow> string" where
  "writeBlockMapping sty first [] = []"
| "writeBlockMapping sty first ((name, v) # props) =
     (if first then ''  - '' else ''    '') @ name @ '': '' @ writeScalar sty v @ newline
       @ writeBlockMapping sty False props"

definition writeKey :: "(string \<Rightarrow> string) \<Rightarrow> ShadowsocksAccessKey \<Rightarrow> string" where
  "writeKey sty k = writeBlockMapping sty True (sortKeys (key_props k))"

text \<open>
  The call passes no \<open>noRefs\<close>, so the dumper first looks for objects that occur more than
  once: \<open>inspectNode\<close> walks the list with the objects seen so far and collects, in the
  order in which it meets them again, the objects met a second time. Such an object is
  written in full where it comes first, after the anchor \<open>&ref_i\<close>, and as the alias
  \<open>*ref_i\<close> wherever it comes again, \<open>i\<close> being its place among the duplicates.
\<close>

fun inspectNode :: "nat list \<Rightarrow> nat list \<Rightarrow> nat list \<Rightarrow> nat list" where
  "inspectNode [] objects duplicates = duplicates"
| "inspectNode (a # as) objects duplicates =
     (if a \<in> set objects
      then inspectNode as objects
             (if a \<in> set duplicates then duplicates else duplicates @ [a])
      else inspectNode as (objects @ [a]) duplicates)"

definition getDuplicateReferences :: "ShadowsocksAccessKey list \<Rightarrow> nat list" where
  "getDuplicateReferences keys = inspectNode (map address keys) [] []"

fun writeBlockSequence ::
  "(string \<Rightarrow> string) \<Rightarrow> nat list \<Rightarrow> nat list \<Rightarrow> ShadowsocksAccessKey list \<Rightarrow> string" where
  "writeBlockSequence sty duplicates usedDuplicates [] = []"
| "writeBlockSequence sty duplicates usedDuplicates (k # ks) =
     (if address k \<in> set duplicates
      then (if address k \<in> set usedDuplicates
            then ''  - *ref_'' @ show_nat (indexOf (address k) duplicates) @ newline
                   @ writeBlockSequence sty duplicates usedDuplicates ks
            else ''  - &ref_'' @ show_nat (indexOf (address k) duplicates) @ newline
                   @ writeBlockMapping sty False (sortKeys (key_props k))
                   @ writeBlockSequence sty duplicates (address k # usedDuplicates) ks)
      else writeKey sty k @ writeBlockSequence sty duplicates usedDuplicates ks)"

definition safeDump :: "(string \<Rightarrow> string) \<Rightarrow> ShadowsocksAccessKey list \<Rightarrow> string" where
  "safeDump sty keys =
     (if keys = [] then ''keys: []'' @ newline
      else ''keys:'' @ newline
             @ writeBlockSequence sty (getDuplicateReferences keys) [] keys)"

text \<open>The style of a string that needs no quoting: the dumper writes it as it is.\<close>

definition plain :: "string \<Rightarrow> string" where
  "plain s = s"

section \<open>The world outside the component\<close>

text \<open>
  Everything the class does to its surroundings is kept in a \<open>world\<close>: the files on disk,
  the subprocesses spawned so far (a handle is the index of its process), and the trace
  of calls made to the collaborators (logging, \<open>mkdirp\<close>, the file writer,
  \<open>child_process\<close>, the standard streams) and of exceptions that nothing caught. The
  environment of the supervising process
  appears in two log lines only; its JSON text and the value of \<open>ALL_PROXY\<close> are fields.
\<close>

datatype js_error = Error string

datatype outcome = Resolved | Rejected js_error

record proc =
  binary :: string
  argv :: "string list"
  running :: bool

datatype effect =
    LogInfo string
  | LogError string
  | Mkdirp string
  | AtomicWrite string string
  | Spawn nat string "string list"
  | SpawnThrows string "string list" js_error
  | Kill nat string
  | Uncaught js_error
  | StdoutWrite string
  | StderrWrite string

record world =
  files :: "string \<rightharpoonup> string"
  procs :: "proc list"
  trace :: "effect list"
  env_json :: string
  all_proxy :: "string option"

definition emit :: "effect \<Rightarrow> world \<Rightarrow> world" where
  "emit e w = w\<lparr>trace := trace w @ [e]\<rparr>"

definition logging_info :: "string \<Rightarrow> world \<Rightarrow> world" where
  "logging_info msg w = emit (LogInfo msg) w"

definition logging_error :: "string \<Rightarrow> world \<Rightarrow> world" where
  "logging_error msg w = emit (LogError msg) w"

text \<open>
  What the system does during one call of \<open>update\<close> is an input of the model:
  \<open>mkdirp.sync\<close> may throw, the file writer may fail at one of its steps, and
  \<open>child_process.spawn\<close> may throw instead of returning a handle.
\<close>

datatype write_fault =
    OpenFails js_error
  | WriteFails nat js_error
  | RenameFails js_error

record io =
  mkdirp_throws :: "js_error option"
  write_fault :: "write_fault option"
  temp_stamp :: string
  spawn_throws :: "js_error option"

text \<open>
  Modelled from the spec: \<open>file.atomicWriteFileSync\<close> lives in \<open>../infrastructure/file\<close>,
  which is not among the sources. The specification has it write the content to a
  temporary location in the directory of the final path and then rename that file onto
  the final path in one step. The temporary file is the final path with a suffix. A
  failure while the temporary file is opened or written, or at the rename, raises an
  error; the final path is replaced by the rename alone.
\<close>

definition atomicWriteFileSync ::
  "write_fault option \<Rightarrow> string \<Rightarrow> string \<Rightarrow> string \<Rightarrow> (string \<rightharpoonup> string)
     \<Rightarrow> js_error option \<times> (string \<rightharpoonup> string)" where
  "atomicWriteFileSync fault stamp filename filebody fs =
     (let tempFilename = filename @ ''.'' @ stamp
      in case fault of
           Some (OpenFails e) \<Rightarrow> (Some e, fs)
         | Some (WriteFails n e) \<Rightarrow> (Some e, fs(tempFilename \<mapsto> take n filebody))
         | Some (RenameFails e) \<Rightarrow> (Some e, fs(tempFilename \<mapsto> filebody))
         | None \<Rightarrow> (None, (fs(tempFilename := None))(filename \<mapsto> filebody)))"

section \<open>The class OutlineShadowsocksServer\<close>

text \<open>
  The fields of the class. \<open>ssProcess\<close> is undefined until the first start. The field
  \<open>proxyAgent\<close> is only read by \<open>checkProxyConnection\<close>, which nothing calls (its one call
  is commented out), so both are left out.
\<close>

record OutlineShadowsocksServer =
  binaryFilename :: string
  configFilename :: string
  verbose :: bool
  metricsLocation :: string
  ipCountryFilename :: "string option"
  ipAsnFilename :: "string option"
  isAsnMetricsEnabled :: bool
  isReplayProtectionEnabled :: bool
  ssProcess :: "nat option"

type_synonym state = "OutlineShadowsocksServer \<times> world"

definition constructor :: "string \<Rightarrow> string \<Rightarrow> bool \<Rightarrow> string \<Rightarrow> OutlineShadowsocksServer" where
  "constructor binaryFilename' configFilename' verbose' metricsLocation' =
     \<lparr>binaryFilename = binaryFilename', configFilename = configFilename',
      verbose = verbose', metricsLocation = metricsLocation',
      ipCountryFilename = None, ipAsnFilename = None,
      isAsnMetricsEnabled = False, isReplayProtectionEnabled = False,
      ssProcess = None\<rparr>"

definition configureCountryMetrics ::
  "string \<Rightarrow> OutlineShadowsocksServer \<Rightarrow> OutlineShadowsocksServer" where
  "configureCountryMetrics ipCountryFilename' this =
     this\<lparr>ipCountryFilename := Some ipCountryFilename'\<rparr>"

definition configureAsnMetrics ::
  "string \<Rightarrow> OutlineShadowsocksServer \<Rightarrow> OutlineShadowsocksServer" where
  "configureAsnMetrics ipAsnFilename' this = this\<lparr>ipAsnFilename := Some ipAsnFilename'\<rparr>"

definition enableReplayProtection :: "OutlineShadowsocksServer \<Rightarrow> OutlineShadowsocksServer" where
  "enableReplayProtection this = this\<lparr>isReplayProtectionEnabled := True\<rparr>"

subsection \<open>writeConfigFile\<close>

text \<open>
  The loop over \<open>keys\<close>: a key with a cipher that is not AEAD is logged and skipped, any
  other key is pushed onto \<open>keysJson.keys\<close>.
\<close>

definition unsupported_cipher_message :: "ShadowsocksAccessKey \<Rightarrow> string" where
  "unsupported_cipher_message key =
     ''Cipher '' @ cipher key @ '' for access key '' @ key_id key
       @ '' is not supported: use an AEAD cipher instead.''"

fun pushKeys ::
  "ShadowsocksAccessKey list \<Rightarrow> ShadowsocksAccessKey list \<times> world
     \<Rightarrow> ShadowsocksAccessKey list \<times> world" where
  "pushKeys [] (keysJson, w) = (keysJson, w)"
| "pushKeys (key # keys) (keysJson, w) =
     (if \<not> isAeadCipher (cipher key)
      then pushKeys keys (keysJson, logging_error (unsupported_cipher_message key) w)
      else pushKeys keys (keysJson @ [key], w))"

text \<open>
  The body of the promise: an exception of \<open>mkdirp.sync\<close> escapes the executor and
  rejects the promise; an exception of the file writer is caught and rejects it too.
\<close>

definition writeConfigFile ::
  "(string \<Rightarrow> string) \<Rightarrow> ShadowsocksAccessKey list \<Rightarrow> io \<Rightarrow> OutlineShadowsocksServer \<Rightarrow> world
     \<Rightarrow> outcome \<times> world" where
  "writeConfigFile sty keys env this w =
     (let (keysJson, w1) = pushKeys keys ([], w);
          w2 = emit (Mkdirp (dirname (configFilename this))) w1
      in case mkdirp_throws env of
           Some e \<Rightarrow> (Rejected e, w2)
         | None \<Rightarrow>
             (let filebody = safeDump sty keysJson;
                  w3 = emit (AtomicWrite (configFilename this) filebody) w2
              in case atomicWriteFileSync (write_fault env) (temp_stamp env)
                        (configFilename this) filebody (files w3) of
                   (Some error, fs) \<Rightarrow> (Rejected error, w3\<lparr>files := fs\<rparr>)
                 | (None, fs) \<Rightarrow> (Resolved, w3\<lparr>files := fs\<rparr>)))"

subsection \<open>start\<close>

text \<open>A string is truthy when it is defined and not empty.\<close>

definition truthy :: "string option \<Rightarrow> bool" where
  "truthy v = (case v of None \<Rightarrow> False | Some s \<Rightarrow> s \<noteq> [])"

definition commandArguments :: "OutlineShadowsocksServer \<Rightarrow> string list" where
  "commandArguments this =
     [''-config'', configFilename this, ''-metrics'', metricsLocation this]
     @ (if truthy (ipCountryFilename this)
        then [''-ip_country_db'', the (ipCountryFilename this)] else [])
     @ (if truthy (ipAsnFilename this)
        then [''-ip_asn_db'', the (ipAsnFilename this)] else [])
     @ (if verbose this then [''-verbose''] else [])
     @ (if isReplayProtectionEnabled this then [''--replay_history=10000''] else [])"

definition quoted :: "string \<Rightarrow> string" where
  "quoted a = [CHR 0x22] @ a @ [CHR 0x22]"

definition show_undefined :: "string option \<Rightarrow> string" where
  "show_undefined v = (case v of None \<Rightarrow> ''undefined'' | Some s \<Rightarrow> s)"

text \<open>
  \<open>child_process.spawn\<close> checks its arguments before it launches anything and throws when
  the file name is empty; it may also throw for a reason of the system, which is an
  input (\<open>fault\<close>). Otherwise it returns the handle of a new subprocess, which runs until
  its exit event; a launch that fails is reported later through the handle's error
  event. Nothing in \<open>start\<close> catches the exception: \<open>ssProcess\<close> is not assigned and no
  handler is registered, and the exception goes on to the caller of \<open>start\<close>. The handlers
  that \<open>start\<close> registers on a handle are the functions \<open>onError\<close>, \<open>onExit\<close>,
  \<open>onStdoutData\<close> and \<open>onStderrData\<close> below.
\<close>

definition spawn_error :: "js_error option \<Rightarrow> string \<Rightarrow> js_error option" where
  "spawn_error fault command =
     (if command = [] then Some (Error ''ERR_INVALID_ARG_VALUE'') else fault)"

definition spawn ::
  "js_error option \<Rightarrow> string \<Rightarrow> string list \<Rightarrow> world \<Rightarrow> (js_error + nat) \<times> world" where
  "spawn fault command args w =
     (case spawn_error fault command of
        Some e \<Rightarrow> (Inl e, emit (SpawnThrows command args e) w)
      | None \<Rightarrow>
          (let pid = length (procs w)
           in (Inr pid,
               emit (Spawn pid command args)
                 (w\<lparr>procs := procs w
                      @ [\<lparr>binary = command, argv = args, running = True\<rparr>]\<rparr>))))"

definition start :: "js_error option \<Rightarrow> state \<Rightarrow> js_error option \<times> state" where
  "start fault s =
     (case s of (this, w) \<Rightarrow>
        let w1 = logging_info ''Starting Shadowsocks service with proxy...'' w;
            args = commandArguments this;
            w2 = logging_info ''======== Starting Outline Shadowsocks Service ========'' w1;
            w3 = logging_info (binaryFilename this @ '' '' @ join '' '' (map quoted args)) w2;
            w4 = logging_info (''Full environment: '' @ env_json w3) w3;
            w5 = logging_info (''ALL_PROXY is set to: '' @ show_undefined (all_proxy w4)) w4
        in case spawn fault (binaryFilename this) args w5 of
             (Inl e, w6) \<Rightarrow> (Some e, (this, w6))
           | (Inr pid, w6) \<Rightarrow> (None, (this\<lparr>ssProcess := Some pid\<rparr>, w6)))"

definition onError :: "string \<Rightarrow> state \<Rightarrow> state" where
  "onError error s =
     (case s of (this, w) \<Rightarrow>
        (this, logging_error (''Error spawning outline-ss-server: '' @ error) w))"

definition show_code :: "int option \<Rightarrow> string" where
  "show_code code = (case code of None \<Rightarrow> ''null'' | Some n \<Rightarrow> show_int n)"

definition show_signal :: "string option \<Rightarrow> string" where
  "show_signal signal = (case signal of None \<Rightarrow> ''null'' | Some s \<Rightarrow> s)"

text \<open>
  The exit handler. An exception of \<open>start\<close> in the handler has no caller to go to: it is
  an uncaught exception of the supervising program.
\<close>

definition onExit :: "int option \<Rightarrow> string option \<Rightarrow> js_error option \<Rightarrow> state \<Rightarrow> state" where
  "onExit code signal fault s =
     (case s of (this, w) \<Rightarrow>
        let w1 = logging_info (''outline-ss-server has exited with error. Code: ''
                   @ show_code code @ '', Signal: '' @ show_signal signal) w;
            w2 = logging_info ''Restarting'' w1
        in case start fault (this, w2) of
             (None, s') \<Rightarrow> s'
           | (Some e, (this', w')) \<Rightarrow> (this', emit (Uncaught e) w'))"

definition onStdoutData :: "string \<Rightarrow> state \<Rightarrow> state" where
  "onStdoutData data s =
     (case s of (this, w) \<Rightarrow>
        (this, emit (StdoutWrite data) (logging_info (''Shadowsocks stdout: '' @ data) w)))"

definition onStderrData :: "string \<Rightarrow> state \<Rightarrow> state" where
  "onStderrData data s =
     (case s of (this, w) \<Rightarrow>
        (this, emit (StderrWrite data) (logging_error (''Shadowsocks stderr: '' @ data) w)))"

subsection \<open>update\<close>

definition kill :: "nat \<Rightarrow> string \<Rightarrow> world \<Rightarrow> world" where
  "kill pid signal w = emit (Kill pid signal) w"

text \<open>
  The callback of \<open>then\<close> runs only when the promise of \<open>writeConfigFile\<close> is resolved;
  a rejection is handed on to the caller. An exception in the callback, which only
  \<open>start\<close> can raise, rejects the promise that \<open>update\<close> returns.
\<close>

definition update ::
  "(string \<Rightarrow> string) \<Rightarrow> ShadowsocksAccessKey list \<Rightarrow> io \<Rightarrow> state \<Rightarrow> outcome \<times> state" where
  "update sty keys env s =
     (case s of (this, w) \<Rightarrow>
        case writeConfigFile sty keys env this w of
          (Rejected error, w') \<Rightarrow> (Rejected error, (this, w'))
        | (Resolved, w') \<Rightarrow>
            (case ssProcess this of
               None \<Rightarrow>
                 (case start (spawn_throws env) (this, w') of
                    (None, s') \<Rightarrow> (Resolved, s')
                  | (Some error, s') \<Rightarrow> (Rejected error, s'))
             | Some p \<Rightarrow> (Resolved, (this, kill p ''SIGHUP'' w'))))"

section \<open>Runs of the component\<close>

text \<open>
  The calls of the owner and the events of the subprocesses, one at a time, as the event
  loop delivers them. A call of \<open>update\<close> runs to its outcome before the next event. An
  exit event comes once, from a process that is running, together with what \<open>spawn\<close> will
  do in its handler; the other events of a handle come from a process that was spawned.
\<close>

datatype event =
    ConfigureCountryMetrics string
  | ConfigureAsnMetrics string
  | EnableReplayProtection
  | Update "ShadowsocksAccessKey list" io
  | ProcError nat string
  | ProcExit nat "int option" "string option" "js_error option"
  | StdoutData nat string
  | StderrData nat string

fun step :: "(string \<Rightarrow> string) \<Rightarrow> event \<Rightarrow> state \<Rightarrow> state option" where
  "step sty (ConfigureCountryMetrics f) (this, w) = Some (configureCountryMetrics f this, w)"
| "step sty (ConfigureAsnMetrics f) (this, w) = Some (configureAsnMetrics f this, w)"
| "step sty EnableReplayProtection (this, w) = Some (enableReplayProtection this, w)"
| "step sty (Update keys env) (this, w) = Some (snd (update sty keys env (this, w)))"
| "step sty (ProcError pid error) (this, w) =
     (if pid < length (procs w) then Some (onError error (this, w)) else None)"
| "step sty (ProcExit pid code signal fault) (this, w) =
     (if pid < length (procs w) \<and> running (procs w ! pid)
      then Some (onExit code signal fault
                  (this, w\<lparr>procs := (procs w)[pid := (procs w ! pid)\<lparr>running := False\<rparr>]\<rparr>))
      else None)"
| "step sty (StdoutData pid data) (this, w) =
     (if pid < length (procs w) then Some (onStdoutData data (this, w)) else None)"
| "step sty (StderrData pid data) (this, w) =
     (if pid < length (procs w) then Some (onStderrData data (this, w)) else None)"

fun run :: "(string \<Rightarrow> string) \<Rightarrow> event list \<Rightarrow> state \<Rightarrow> state option" where
  "run sty [] s = Some s"
| "run sty (e # es) s = (case step sty e s of None \<Rightarrow> None | Some s' \<Rightarrow> run sty es s')"

definition live :: "world \<Rightarrow> nat" where
  "live w = length (filter running (procs w))"

definition spawns :: "effect list \<Rightarrow> (nat \<times> string \<times> string list) list" where
  "spawns tr = concat (map (\<lambda>e. case e of Spawn p c a \<Rightarrow> [(p, c, a)] | _ \<Rightarrow> []) tr)"

definition kills :: "effect list \<Rightarrow> (nat \<times> string) list" where
  "kills tr = concat (map (\<lambda>e. case e of Kill p sg \<Rightarrow> [(p, sg)] | _ \<Rightarrow> []) tr)"

text \<open>The calls of \<open>spawn\<close>, whether they returned or threw.\<close>

definition spawn_requests :: "effect list \<Rightarrow> (string \<times> string list) list" where
  "spawn_requests tr =
     concat (map (\<lambda>e. case e of Spawn p c a \<Rightarrow> [(c, a)]
                            | SpawnThrows c a x \<Rightarrow> [(c, a)]
                            | _ \<Rightarrow> []) tr)"

section \<open>Notions used in the statements\<close>

text \<open>
  The error lines that the loop of \<open>writeConfigFile\<close> logs for a list of keys, and the
  info lines that \<open>start\<close> logs before it spawns.
\<close>

definition rejected_logs :: "ShadowsocksAccessKey list \<Rightarrow> effect list" where
  "rejected_logs keys =
     map (\<lambda>k. LogError (unsupported_cipher_message k))
       (filter (\<lambda>k. \<not> isAeadCipher (cipher k)) keys)"

definition start_logs :: "OutlineShadowsocksServer \<Rightarrow> world \<Rightarrow> effect list" where
  "start_logs this w =
     [LogInfo ''Starting Shadowsocks service with proxy...'',
      LogInfo ''======== Starting Outline Shadowsocks Service ========'',
      LogInfo (binaryFilename this @ '' '' @ join '' '' (map quoted (commandArguments this))),
      LogInfo (''Full environment: '' @ env_json w),
      LogInfo (''ALL_PROXY is set to: '' @ show_undefined (all_proxy w))]"

text \<open>
  The state after a call of \<open>start\<close> in which \<open>spawn\<close> returned, and after one in which it
  threw.
\<close>

definition launched :: "state \<Rightarrow> state" where
  "launched s =
     (case s of (this, w) \<Rightarrow>
        (this\<lparr>ssProcess := Some (length (procs w))\<rparr>,
         w\<lparr>procs := procs w @ [\<lparr>binary = binaryFilename this, argv = commandArguments this,
                                  running = True\<rparr>],
           trace := trace w @ start_logs this w
                      @ [Spawn (length (procs w)) (binaryFilename this)
                           (commandArguments this)]\<rparr>))"

definition refused :: "js_error \<Rightarrow> state \<Rightarrow> state" where
  "refused e s =
     (case s of (this, w) \<Rightarrow>
        (this,
         w\<lparr>trace := trace w @ start_logs this w
                      @ [SpawnThrows (binaryFilename this) (commandArguments this) e]\<rparr>))"

text \<open>The world after the exit handler has logged the exit.\<close>

definition exit_logged :: "int option \<Rightarrow> string option \<Rightarrow> world \<Rightarrow> world" where
  "exit_logged code signal w =
     logging_info ''Restarting''
       (logging_info (''outline-ss-server has exited with error. Code: ''
          @ show_code code @ '', Signal: '' @ show_signal signal) w)"

text \<open>The error that a fault of the file writer raises.\<close>

definition fault_error :: "write_fault \<Rightarrow> js_error" where
  "fault_error f = (case f of OpenFails e \<Rightarrow> e | WriteFails n e \<Rightarrow> e | RenameFails e \<Rightarrow> e)"

text \<open>What a key holds, apart from which object it is.\<close>

definition key_fields :: "ShadowsocksAccessKey \<Rightarrow> string \<times> nat \<times> string \<times> string" where
  "key_fields k = (key_id k, port k, cipher k, secret k)"

text \<open>
  The world after \<open>writeConfigFile\<close> has logged, made the directory and called the file
  writer.
\<close>

definition written :: "(string \<Rightarrow> string) \<Rightarrow> ShadowsocksAccessKey list \<Rightarrow> io
    \<Rightarrow> OutlineShadowsocksServer \<Rightarrow> world \<Rightarrow> world" where
  "written sty keys env this w =
     w\<lparr>trace := trace w @ rejected_logs keys
                  @ [Mkdirp (dirname (configFilename this)),
                     AtomicWrite (configFilename this)
                       (safeDump sty (filter (\<lambda>k. isAeadCipher (cipher k)) keys))],
       files := snd (atomicWriteFileSync (write_fault env) (temp_stamp env) (configFilename this)
                  (safeDump sty (filter (\<lambda>k. isAeadCipher (cipher k)) keys)) (files w))\<rparr>"

text \<open>
  The supervision invariant: without a handle nothing was spawned; the handle names the
  subprocess spawned last; no other subprocess is running.
\<close>

definition supervised :: "state \<Rightarrow> bool" where
  "supervised s =
     (case s of (this, w) \<Rightarrow>
        (case ssProcess this of
           None \<Rightarrow> procs w = []
         | Some p \<Rightarrow> Suc p = length (procs w))
      \<and> (\<forall>i \<in> {0..<length (procs w)}.
            running (procs w ! i) \<longrightarrow> Suc i = length (procs w)))"

text \<open>The effects of one call: what it appended to the trace.\<close>

definition effects_since :: "world \<Rightarrow> world \<Rightarrow> effect list" where
  "effects_since w w' = drop (length (trace w)) (trace w')"

text \<open>The calls that only configure the object.\<close>

fun is_builder :: "event \<Rightarrow> bool" where
  "is_builder (ConfigureCountryMetrics f) = True"
| "is_builder (ConfigureAsnMetrics f) = True"
| "is_builder EnableReplayProtection = True"
| "is_builder e = False"

section \<open>Example inputs\<close>

definition alice :: ShadowsocksAccessKey where
  "alice = \<lparr>address = 1, key_id = ''alice'', port = 9000, cipher = ''chacha20-ietf-poly1305'',
            secret = ''s3cretA''\<rparr>"

definition bob :: ShadowsocksAccessKey where
  "bob = \<lparr>address = 2, key_id = ''bob'', port = 9001, cipher = ''AES-256-GCM'', secret = ''s3cretB''\<rparr>"

definition carol :: ShadowsocksAccessKey where
  "carol = \<lparr>address = 3, key_id = ''carol'', port = 9002, cipher = ''rc4'', secret = ''s3cretC''\<rparr>"

definition server0 :: OutlineShadowsocksServer where
  "server0 = constructor ''/opt/outline-ss-server'' ''/state/config.yml'' True ''127.0.0.1:9092''"

definition world0 :: world where
  "world0 = \<lparr>files = Map.empty, procs = [], trace = [], env_json = ''{}'', all_proxy = None\<rparr>"

definition io_ok :: io where
  "io_ok =
     \<lparr>mkdirp_throws = None, write_fault = None, temp_stamp = ''1700000000000'',
      spawn_throws = None\<rparr>"

definition io_mkdirp_fails :: io where
  "io_mkdirp_fails =
     \<lparr>mkdirp_throws = Some (Error ''EACCES''), write_fault = None,
      temp_stamp = ''1700000000001'', spawn_throws = None\<rparr>"

definition io_disk_full :: io where
  "io_disk_full =
     \<lparr>mkdirp_throws = None, write_fault = Some (WriteFails 7 (Error ''ENOSPC'')),
      temp_stamp = ''1700000000002'', spawn_throws = None\<rparr>"

text \<open>An object whose binary has no name, and a copy of \<open>bob\<close> that is another object.\<close>

definition nameless :: OutlineShadowsocksServer where
  "nameless = constructor [] ''/state/config.yml'' True ''127.0.0.1:9092''"

definition bob_copy :: ShadowsocksAccessKey where
  "bob_copy = bob\<lparr>address := 4\<rparr>"

text \<open>The state after a first update that succeeded, with one subprocess running.\<close>

definition started :: state where
  "started = snd (update plain [alice] io_ok (server0, world0))"

text \<open>
  A run with a failed update, a reload, two exits and some output of the subprocess.
\<close>

definition example_run :: "event list" where
  "example_run =
     [Update [alice] io_ok, Update [bob] io_mkdirp_fails, Update [bob] io_ok,
      ProcExit 0 (Some 1) None None, StdoutData 1 ''listening'',
      ProcExit 1 None (Some ''SIGTERM'') None]"

section \<open>Facts about the model\<close>

lemma endsWith_suffix: "endsWith s search = suffix search s"
proof
  assume "endsWith s search"
  then have "s = take (length s - length search) s @ search"
    unfolding endsWith_def by (metis append_take_drop_id)
  then show "suffix search s"
    unfolding suffix_def by blast
next
  assume "suffix search s"
  then obtain p where "s = p @ search"
    unfolding suffix_def by blast
  then show "endsWith s search"
    unfolding endsWith_def by simp
qed

lemma ends_in_ignoring_case_iff:
  "ends_in_ignoring_case name suf = suffix (map toLowerChar suf) (toLowerCase name)"
proof
  assume "ends_in_ignoring_case name suf"
  then obtain t where t: "suffix t name" "map toLowerChar t = map toLowerChar suf"
    by (auto simp: ends_in_ignoring_case_def equals_ignoring_case_def in_set_suffixes)
  from t(1) obtain p where "name = p @ t" by (auto simp: suffix_def)
  with t(2) show "suffix (map toLowerChar suf) (toLowerCase name)"
    by (simp add: toLowerCase_def suffix_def)
next
  assume "suffix (map toLowerChar suf) (toLowerCase name)"
  then obtain q where q: "map toLowerChar name = q @ map toLowerChar suf"
    by (auto simp: suffix_def toLowerCase_def)
  let ?t = "drop (length q) name"
  have "map toLowerChar ?t = map toLowerChar suf"
    using q by (metis append_eq_conv_conj drop_map)
  moreover have "suffix ?t name" by (rule suffix_drop)
  ultimately show "ends_in_ignoring_case name suf"
    by (auto simp: ends_in_ignoring_case_def equals_ignoring_case_def in_set_suffixes)
qed

lemma lower_GCM: "map toLowerChar ''GCM'' = ''gcm''"
  by (simp add: toLowerChar_def)

lemma lower_Poly1305: "map toLowerChar ''Poly1305'' = ''poly1305''"
  by (simp add: toLowerChar_def)

lemma isAeadCipher_spec: "isAeadCipher c = spec_accepts_cipher c"
  unfolding isAeadCipher_def Let_def spec_accepts_cipher_def endsWith_suffix
    ends_in_ignoring_case_iff lower_GCM lower_Poly1305 ..

lemma pushKeys_filter:
  "pushKeys keys (acc, w) =
     (acc @ filter (\<lambda>k. isAeadCipher (cipher k)) keys,
      w\<lparr>trace := trace w @ map (\<lambda>k. LogError (unsupported_cipher_message k))
                              (filter (\<lambda>k. \<not> isAeadCipher (cipher k)) keys)\<rparr>)"
  by (induction keys arbitrary: acc w) (simp_all add: logging_error_def emit_def)

lemma pushKeys_eq:
  "pushKeys keys ([], w) =
     (filter (\<lambda>k. isAeadCipher (cipher k)) keys, w\<lparr>trace := trace w @ rejected_logs keys\<rparr>)"
  by (simp add: pushKeys_filter rejected_logs_def)

lemma temp_is_not_final: "filename @ ''.'' @ stamp \<noteq> filename"
  by simp

lemma atomicWrite_ok:
  "atomicWriteFileSync None stamp filename body fs =
     (None, (fs(filename @ ''.'' @ stamp := None))(filename \<mapsto> body))"
  by (simp add: atomicWriteFileSync_def)

lemma atomicWrite_fault:
  "\<exists>e. fst (atomicWriteFileSync (Some f) stamp filename body fs) = Some e"
  by (cases f) (simp_all add: atomicWriteFileSync_def)

lemma atomicWrite_fault_final:
  "snd (atomicWriteFileSync (Some f) stamp filename body fs) filename = fs filename"
  by (cases f) (simp_all add: atomicWriteFileSync_def)

lemma writeConfigFile_mkdirp_throws:
  assumes "mkdirp_throws env = Some e"
  shows "writeConfigFile sty keys env this w =
           (Rejected e,
            w\<lparr>trace := trace w @ rejected_logs keys @ [Mkdirp (dirname (configFilename this))]\<rparr>)"
  using assms by (simp add: writeConfigFile_def pushKeys_eq emit_def)

lemma writeConfigFile_written:
  assumes "mkdirp_throws env = None"
  shows "writeConfigFile sty keys env this w =
           (let body = safeDump sty (filter (\<lambda>k. isAeadCipher (cipher k)) keys);
                res = atomicWriteFileSync (write_fault env) (temp_stamp env)
                        (configFilename this) body (files w)
            in (case fst res of Some error \<Rightarrow> Rejected error | None \<Rightarrow> Resolved,
                w\<lparr>trace := trace w @ rejected_logs keys
                              @ [Mkdirp (dirname (configFilename this)),
                                 AtomicWrite (configFilename this) body],
                  files := snd res\<rparr>))"
  using assms
  by (simp add: writeConfigFile_def pushKeys_eq emit_def Let_def split: prod.splits option.splits)

lemma start_returns:
  assumes "spawn_error fault (binaryFilename this) = None"
  shows "start fault (this, w) = (None, launched (this, w))"
  using assms
  by (simp add: start_def spawn_def launched_def logging_info_def emit_def start_logs_def Let_def)

lemma start_throws:
  assumes "spawn_error fault (binaryFilename this) = Some e"
  shows "start fault (this, w) = (Some e, refused e (this, w))"
  using assms
  by (simp add: start_def spawn_def refused_def logging_info_def emit_def start_logs_def Let_def)

lemma spawns_simps [simp]:
  "spawns [] = []"
  "spawns (xs @ ys) = spawns xs @ spawns ys"
  "spawns (Spawn p c a # xs) = (p, c, a) # spawns xs"
  "spawns (SpawnThrows c a x # xs) = spawns xs"
  "spawns (LogInfo m # xs) = spawns xs"
  "spawns (LogError m # xs) = spawns xs"
  "spawns (Mkdirp d # xs) = spawns xs"
  "spawns (AtomicWrite f b # xs) = spawns xs"
  "spawns (Kill p sg # xs) = spawns xs"
  "spawns (Uncaught x # xs) = spawns xs"
  "spawns (StdoutWrite m # xs) = spawns xs"
  "spawns (StderrWrite m # xs) = spawns xs"
  by (simp_all add: spawns_def)

lemma spawn_requests_simps [simp]:
  "spawn_requests [] = []"
  "spawn_requests (xs @ ys) = spawn_requests xs @ spawn_requests ys"
  "spawn_requests (Spawn p c a # xs) = (c, a) # spawn_requests xs"
  "spawn_requests (SpawnThrows c a x # xs) = (c, a) # spawn_requests xs"
  "spawn_requests (LogInfo m # xs) = spawn_requests xs"
  "spawn_requests (LogError m # xs) = spawn_requests xs"
  "spawn_requests (Mkdirp d # xs) = spawn_requests xs"
  "spawn_requests (AtomicWrite f b # xs) = spawn_requests xs"
  "spawn_requests (Kill p sg # xs) = spawn_requests xs"
  "spawn_requests (Uncaught x # xs) = spawn_requests xs"
  "spawn_requests (StdoutWrite m # xs) = spawn_requests xs"
  "spawn_requests (StderrWrite m # xs) = spawn_requests xs"
  by (simp_all add: spawn_requests_def)

lemma kills_simps [simp]:
  "kills [] = []"
  "kills (xs @ ys) = kills xs @ kills ys"
  "kills (Kill p sg # xs) = (p, sg) # kills xs"
  "kills (LogInfo m # xs) = kills xs"
  "kills (LogError m # xs) = kills xs"
  "kills (Mkdirp d # xs) = kills xs"
  "kills (AtomicWrite f b # xs) = kills xs"
  "kills (Spawn p c a # xs) = kills xs"
  "kills (SpawnThrows c a x # xs) = kills xs"
  "kills (Uncaught x # xs) = kills xs"
  "kills (StdoutWrite m # xs) = kills xs"
  "kills (StderrWrite m # xs) = kills xs"
  by (simp_all add: kills_def)

lemma spawns_rejected_logs [simp]: "spawns (rejected_logs keys) = []"
  by (induction keys) (simp_all add: rejected_logs_def)

lemma spawn_requests_rejected_logs [simp]: "spawn_requests (rejected_logs keys) = []"
  by (induction keys) (simp_all add: rejected_logs_def)

lemma kills_rejected_logs [simp]: "kills (rejected_logs keys) = []"
  by (induction keys) (simp_all add: rejected_logs_def)

lemma spawns_start_logs [simp]: "spawns (start_logs this w) = []"
  by (simp add: start_logs_def)

lemma spawn_requests_start_logs [simp]: "spawn_requests (start_logs this w) = []"
  by (simp add: start_logs_def)

lemma kills_start_logs [simp]: "kills (start_logs this w) = []"
  by (simp add: start_logs_def)

text \<open>The five ways a call of \<open>update\<close> can go.\<close>

lemma update_mkdirp_throws:
  assumes "mkdirp_throws env = Some e"
  shows "update sty keys env (this, w) =
           (Rejected e, this,
            w\<lparr>trace := trace w @ rejected_logs keys @ [Mkdirp (dirname (configFilename this))]\<rparr>)"
  using assms by (simp add: update_def writeConfigFile_mkdirp_throws)

lemma update_write_fault:
  assumes "mkdirp_throws env = None" and "write_fault env = Some f"
  shows "\<exists>e. update sty keys env (this, w) = (Rejected e, this, written sty keys env this w)"
proof -
  obtain e where "fst (atomicWriteFileSync (Some f) (temp_stamp env) (configFilename this)
      (safeDump sty (filter (\<lambda>k. isAeadCipher (cipher k)) keys)) (files w)) = Some e"
    using atomicWrite_fault by blast
  then show ?thesis
    using assms by (simp add: update_def writeConfigFile_written written_def Let_def)
qed

lemma writeConfigFile_ok:
  assumes "mkdirp_throws env = None" and "write_fault env = None"
  shows "writeConfigFile sty keys env this w = (Resolved, written sty keys env this w)"
  using assms by (simp add: writeConfigFile_written written_def Let_def atomicWrite_ok)

lemma update_reloads:
  assumes "mkdirp_throws env = None" and "write_fault env = None" and "ssProcess this = Some p"
  shows "update sty keys env (this, w) =
           (Resolved, this, kill p ''SIGHUP'' (written sty keys env this w))"
  using assms by (simp add: update_def writeConfigFile_ok)

lemma update_launches:
  assumes "mkdirp_throws env = None" and "write_fault env = None" and "ssProcess this = None"
      and "spawn_error (spawn_throws env) (binaryFilename this) = None"
  shows "update sty keys env (this, w) = (Resolved, launched (this, written sty keys env this w))"
  using assms by (simp add: update_def writeConfigFile_ok start_returns)

lemma update_refused:
  assumes "mkdirp_throws env = None" and "write_fault env = None" and "ssProcess this = None"
      and "spawn_error (spawn_throws env) (binaryFilename this) = Some e"
  shows "update sty keys env (this, w) = (Rejected e, refused e (this, written sty keys env this w))"
  using assms by (simp add: update_def writeConfigFile_ok start_throws)

lemma update_cases:
  obtains
    (mkdirp) e where "mkdirp_throws env = Some e"
      and "update sty keys env (this, w) =
             (Rejected e, this,
              w\<lparr>trace := trace w @ rejected_logs keys
                            @ [Mkdirp (dirname (configFilename this))]\<rparr>)"
  | (failed_write) f e where "mkdirp_throws env = None" and "write_fault env = Some f"
      and "update sty keys env (this, w) = (Rejected e, this, written sty keys env this w)"
  | (reload) p where "mkdirp_throws env = None" and "write_fault env = None"
      and "ssProcess this = Some p"
      and "update sty keys env (this, w) =
             (Resolved, this, kill p ''SIGHUP'' (written sty keys env this w))"
  | (launch) "mkdirp_throws env = None" and "write_fault env = None"
      and "ssProcess this = None"
      and "spawn_error (spawn_throws env) (binaryFilename this) = None"
      and "update sty keys env (this, w) =
             (Resolved, launched (this, written sty keys env this w))"
  | (refuse) e where "mkdirp_throws env = None" and "write_fault env = None"
      and "ssProcess this = None"
      and "spawn_error (spawn_throws env) (binaryFilename this) = Some e"
      and "update sty keys env (this, w) =
             (Rejected e, refused e (this, written sty keys env this w))"
proof (cases "mkdirp_throws env")
  case (Some e)
  with update_mkdirp_throws [OF Some] mkdirp show ?thesis by blast
next
  case None
  show ?thesis
  proof (cases "write_fault env")
    case (Some f)
    with update_write_fault [OF None Some] None failed_write show ?thesis by blast
  next
    case N: None
    show ?thesis
    proof (cases "ssProcess this")
      case (Some p)
      with update_reloads [OF None N Some] None N reload show ?thesis by blast
    next
      case no: None
      show ?thesis
      proof (cases "spawn_error (spawn_throws env) (binaryFilename this)")
        case ok: None
        with update_launches [OF None N no ok] None N no launch show ?thesis by blast
      next
        case (Some e)
        with update_refused [OF None N no Some] None N no refuse show ?thesis by blast
      qed
    qed
  qed
qed

lemma files_written_ok:
  assumes "write_fault env = None"
  shows "files (written sty keys env this w) (configFilename this) =
           Some (safeDump sty (filter (\<lambda>k. isAeadCipher (cipher k)) keys))"
  using assms by (simp add: written_def atomicWrite_ok)

lemma files_written_fault:
  assumes "write_fault env = Some f"
  shows "files (written sty keys env this w) (configFilename this) = files w (configFilename this)"
  using assms by (simp add: written_def atomicWrite_fault_final)

lemma procs_written [simp]: "procs (written sty keys env this w) = procs w"
  by (simp add: written_def)

lemma trace_written:
  "trace (written sty keys env this w) =
     trace w @ rejected_logs keys
       @ [Mkdirp (dirname (configFilename this)),
          AtomicWrite (configFilename this)
            (safeDump sty (filter (\<lambda>k. isAeadCipher (cipher k)) keys))]"
  by (simp add: written_def)

lemma launched_simps:
  "fst (launched (this, w)) = this\<lparr>ssProcess := Some (length (procs w))\<rparr>"
  "files (snd (launched (this, w))) = files w"
  "procs (snd (launched (this, w))) =
     procs w @ [\<lparr>binary = binaryFilename this, argv = commandArguments this, running = True\<rparr>]"
  "trace (snd (launched (this, w))) =
     trace w @ start_logs this w
       @ [Spawn (length (procs w)) (binaryFilename this) (commandArguments this)]"
  by (simp_all add: launched_def)

lemma refused_simps:
  "fst (refused e (this, w)) = this"
  "files (snd (refused e (this, w))) = files w"
  "procs (snd (refused e (this, w))) = procs w"
  "trace (snd (refused e (this, w))) =
     trace w @ start_logs this w
       @ [SpawnThrows (binaryFilename this) (commandArguments this) e]"
  by (simp_all add: refused_def)

lemma files_kill [simp]: "files (kill p sg w) = files w"
  by (simp add: kill_def emit_def)

lemma procs_kill [simp]: "procs (kill p sg w) = procs w"
  by (simp add: kill_def emit_def)

lemma trace_kill [simp]: "trace (kill p sg w) = trace w @ [Kill p sg]"
  by (simp add: kill_def emit_def)

lemma files_update_ok:
  assumes "mkdirp_throws env = None" and "write_fault env = None"
  shows "files (snd (snd (update sty keys env (this, w)))) (configFilename this) =
           Some (safeDump sty (filter (\<lambda>k. isAeadCipher (cipher k)) keys))"
proof (cases rule: update_cases [of env sty keys this w])
  case (mkdirp e)
  with assms show ?thesis by simp
next
  case (failed_write f e)
  with assms show ?thesis by simp
next
  case (reload p)
  then show ?thesis by (simp add: files_written_ok)
next
  case launch
  then show ?thesis by (simp add: files_written_ok launched_simps)
next
  case (refuse e)
  then show ?thesis by (simp add: files_written_ok refused_simps)
qed

lemma files_update_fault:
  assumes "mkdirp_throws env \<noteq> None \<or> write_fault env \<noteq> None"
  shows "files (snd (snd (update sty keys env (this, w)))) (configFilename this) =
           files w (configFilename this)"
proof (cases rule: update_cases [of env sty keys this w])
  case (mkdirp e)
  then show ?thesis by simp
next
  case (failed_write f e)
  then show ?thesis by (simp add: files_written_fault)
next
  case (reload p)
  with assms show ?thesis by simp
next
  case launch
  with assms show ?thesis by simp
next
  case (refuse e)
  with assms show ?thesis by simp
qed

lemma outcome_update:
  "(\<exists>e. fst (update sty keys env (this, w)) = Rejected e)
     \<longleftrightarrow> (mkdirp_throws env \<noteq> None \<or> write_fault env \<noteq> None
          \<or> (ssProcess this = None
              \<and> spawn_error (spawn_throws env) (binaryFilename this) \<noteq> None))"
  by (cases rule: update_cases [of env sty keys this w]) simp_all


lemma effects_since_append [simp]:
  "trace w' = trace w @ es \<Longrightarrow> effects_since w w' = es"
  by (simp add: effects_since_def)

lemma atomicWrite_fault_error:
  "fst (atomicWriteFileSync (Some f) stamp filename body fs) = Some (fault_error f)"
  by (cases f) (simp_all add: atomicWriteFileSync_def fault_error_def)

lemma outcome_update_eq:
  "fst (update sty keys env (this, w)) =
     (case mkdirp_throws env of
        Some e \<Rightarrow> Rejected e
      | None \<Rightarrow>
          (case write_fault env of
             Some f \<Rightarrow> Rejected (fault_error f)
           | None \<Rightarrow>
               (case ssProcess this of
                  Some p \<Rightarrow> Resolved
                | None \<Rightarrow>
                    (case spawn_error (spawn_throws env) (binaryFilename this) of
                       None \<Rightarrow> Resolved
                     | Some e \<Rightarrow> Rejected e))))"
proof (cases rule: update_cases [of env sty keys this w])
  case (failed_write f e)
  then show ?thesis
    by (simp add: update_def writeConfigFile_written Let_def atomicWrite_fault_error)
qed simp_all

subsection \<open>The dumper\<close>

lemma sortKeys_key_props:
  "sortKeys (key_props k) =
     [(''cipher'', Str (cipher k)), (''id'', Str (key_id k)),
      (''port'', Num (port k)), (''secret'', Str (secret k))]"
  by (simp add: sortKeys_def key_props_def)

lemma writeKey_eq:
  "writeKey sty k =
     ''  - cipher: '' @ sty (cipher k) @ newline
     @ ''    id: '' @ sty (key_id k) @ newline
     @ ''    port: '' @ show_nat (port k) @ newline
     @ ''    secret: '' @ sty (secret k) @ newline"
  by (simp add: writeKey_def sortKeys_key_props writeScalar_def)

lemma writeKey_fields:
  assumes "key_fields k = key_fields k'"
  shows "writeKey sty k = writeKey sty k'"
  using assms by (simp add: writeKey_eq key_fields_def)

lemma writeKeys_fields:
  assumes "map key_fields ks = map key_fields ks'"
  shows "concat (map (writeKey sty) ks) = concat (map (writeKey sty) ks')"
  using assms
proof (induction ks arbitrary: ks')
  case Nil
  then show ?case by simp
next
  case (Cons k ks)
  then obtain k' ks'' where "ks' = k' # ks''" by (cases ks') auto
  with Cons show ?case
    by (simp add: writeKey_fields [of k k'])
qed

lemma inspectNode_distinct:
  assumes "distinct as" and "set as \<inter> set objects = {}"
  shows "inspectNode as objects duplicates = duplicates"
  using assms by (induction as arbitrary: objects) auto

lemma getDuplicateReferences_distinct:
  assumes "distinct (map address keys)"
  shows "getDuplicateReferences keys = []"
  using assms by (simp add: getDuplicateReferences_def inspectNode_distinct)

lemma writeBlockSequence_no_duplicates:
  "writeBlockSequence sty [] used keys = concat (map (writeKey sty) keys)"
  by (induction keys) simp_all

lemma safeDump_distinct:
  assumes "distinct (map address keys)"
  shows "safeDump sty keys =
           (if keys = [] then ''keys: []'' @ newline
            else ''keys:'' @ newline @ concat (map (writeKey sty) keys))"
  using assms
  by (simp add: safeDump_def getDuplicateReferences_distinct writeBlockSequence_no_duplicates)

lemma safeDump_same_fields:
  assumes "map key_fields ks' = map key_fields ks"
      and "distinct (map address ks)" and "distinct (map address ks')"
  shows "safeDump sty ks' = safeDump sty ks"
proof -
  from assms(1) have "length ks' = length ks"
    by (rule map_eq_imp_length_eq)
  then have "ks' = [] \<longleftrightarrow> ks = []" by auto
  with assms show ?thesis
    by (simp add: safeDump_distinct writeKeys_fields [of ks' ks])
qed

subsection \<open>The examples\<close>

lemma accepts_examples:
  "isAeadCipher (cipher alice)" "isAeadCipher (cipher bob)" "\<not> isAeadCipher (cipher carol)"
  "isAeadCipher (cipher bob_copy)"
  by (simp_all add: isAeadCipher_def endsWith_def toLowerCase_def toLowerChar_def
      alice_def bob_def carol_def bob_copy_def)

lemma distinct_examples:
  "alice \<noteq> bob" "alice \<noteq> carol" "bob \<noteq> carol" "bob \<noteq> bob_copy"
  by (simp_all add: alice_def bob_def carol_def bob_copy_def)

lemma address_examples:
  "address alice = 1" "address bob = 2" "address carol = 3" "address bob_copy = 4"
  by (simp_all add: alice_def bob_def carol_def bob_copy_def)

lemma io_ok_simps [simp]:
  "mkdirp_throws io_ok = None" "write_fault io_ok = None" "spawn_throws io_ok = None"
  by (simp_all add: io_ok_def)

lemma server0_simps [simp]:
  "binaryFilename server0 = ''/opt/outline-ss-server''"
  "configFilename server0 = ''/state/config.yml''"
  "metricsLocation server0 = ''127.0.0.1:9092''"
  "ssProcess server0 = None"
  "commandArguments server0
     = [''-config'', ''/state/config.yml'', ''-metrics'', ''127.0.0.1:9092'', ''-verbose'']"
  by (simp_all add: server0_def constructor_def commandArguments_def truthy_def)

lemma spawn_error_simps [simp]:
  "spawn_error fault [] = Some (Error ''ERR_INVALID_ARG_VALUE'')"
  "spawn_error fault (c # cs) = fault"
  by (simp_all add: spawn_error_def)

lemma nameless_simps [simp]:
  "binaryFilename nameless = []"
  "configFilename nameless = ''/state/config.yml''"
  "ssProcess nameless = None"
  by (simp_all add: nameless_def constructor_def)

lemma world0_simps [simp]: "procs world0 = []" "trace world0 = []"
  by (simp_all add: world0_def)

lemma show_nat_examples: "show_nat 9000 = ''9000''" "show_nat 9001 = ''9001''" "show_nat 0 = ''0''"
  by (simp_all add: show_nat.simps digit_def)

lemma safeDump_alice_bob:
  "safeDump plain [alice, bob] =
     ''keys:'' @ newline
     @ ''  - cipher: chacha20-ietf-poly1305'' @ newline
     @ ''    id: alice'' @ newline
     @ ''    port: 9000'' @ newline
     @ ''    secret: s3cretA'' @ newline
     @ ''  - cipher: AES-256-GCM'' @ newline
     @ ''    id: bob'' @ newline
     @ ''    port: 9001'' @ newline
     @ ''    secret: s3cretB'' @ newline"
  by (simp add: safeDump_distinct address_examples writeKey_eq plain_def alice_def bob_def
      show_nat_examples)

lemma safeDump_bob_alice:
  "safeDump plain [bob, alice] =
     ''keys:'' @ newline
     @ ''  - cipher: AES-256-GCM'' @ newline
     @ ''    id: bob'' @ newline
     @ ''    port: 9001'' @ newline
     @ ''    secret: s3cretB'' @ newline
     @ ''  - cipher: chacha20-ietf-poly1305'' @ newline
     @ ''    id: alice'' @ newline
     @ ''    port: 9000'' @ newline
     @ ''    secret: s3cretA'' @ newline"
  by (simp add: safeDump_distinct address_examples writeKey_eq plain_def alice_def bob_def
      show_nat_examples)

lemma safeDump_order_matters: "safeDump plain [alice, bob] \<noteq> safeDump plain [bob, alice]"
  unfolding safeDump_alice_bob safeDump_bob_alice by (simp add: newline_def)

text \<open>One object twice in the list is written once, with an anchor, and then as an alias.\<close>

lemma safeDump_bob_bob:
  "safeDump plain [bob, bob] =
     ''keys:'' @ newline
     @ ''  - &ref_0'' @ newline
     @ ''    cipher: AES-256-GCM'' @ newline
     @ ''    id: bob'' @ newline
     @ ''    port: 9001'' @ newline
     @ ''    secret: s3cretB'' @ newline
     @ ''  - *ref_0'' @ newline"
  by (simp add: safeDump_def getDuplicateReferences_def sortKeys_key_props writeScalar_def
      plain_def bob_def show_nat_examples)

lemma safeDump_bob_bob_copy:
  "safeDump plain [bob, bob_copy] =
     ''keys:'' @ newline
     @ ''  - cipher: AES-256-GCM'' @ newline
     @ ''    id: bob'' @ newline
     @ ''    port: 9001'' @ newline
     @ ''    secret: s3cretB'' @ newline
     @ ''  - cipher: AES-256-GCM'' @ newline
     @ ''    id: bob'' @ newline
     @ ''    port: 9001'' @ newline
     @ ''    secret: s3cretB'' @ newline"
  by (simp add: safeDump_distinct address_examples writeKey_eq plain_def bob_copy_def bob_def
      show_nat_examples)

lemma safeDump_alias_matters: "safeDump plain [bob, bob] \<noteq> safeDump plain [bob, bob_copy]"
  unfolding safeDump_bob_bob safeDump_bob_bob_copy by (simp add: newline_def)

lemma started_eq:
  "started = launched (server0, written plain [alice] io_ok server0 world0)"
  by (simp add: started_def update_launches)

lemma started_handle: "ssProcess (fst started) = Some 0"
  by (simp add: started_eq launched_simps)

lemma started_object: "fst started = server0\<lparr>ssProcess := Some 0\<rparr>"
  by (simp add: started_eq launched_simps)

lemma started_procs:
  "procs (snd started) =
     [\<lparr>binary = ''/opt/outline-ss-server'',
       argv = [''-config'', ''/state/config.yml'', ''-metrics'', ''127.0.0.1:9092'', ''-verbose''],
       running = True\<rparr>]"
  by (simp add: started_eq launched_simps)

lemma started_simps [simp]:
  "binaryFilename (fst started) = ''/opt/outline-ss-server''"
  "configFilename (fst started) = ''/state/config.yml''"
  "commandArguments (fst started)
     = [''-config'', ''/state/config.yml'', ''-metrics'', ''127.0.0.1:9092'', ''-verbose'']"
  by (simp_all add: started_object server0_def constructor_def commandArguments_def truthy_def)


lemma spawns_of_no_requests:
  assumes "spawn_requests es = []"
  shows "spawns es = []"
  using assms
proof (induction es)
  case Nil
  then show ?case by simp
next
  case (Cons e es)
  then show ?case by (cases e) simp_all
qed

lemma take4_commandArguments:
  "take 4 (commandArguments this) =
     [''-config'', configFilename this, ''-metrics'', metricsLocation this]"
  by (simp add: commandArguments_def)

lemma effects_written:
  "effects_since w (written sty keys env this w) =
     rejected_logs keys
       @ [Mkdirp (dirname (configFilename this)),
          AtomicWrite (configFilename this)
            (safeDump sty (filter (\<lambda>k. isAeadCipher (cipher k)) keys))]"
  by (rule effects_since_append) (simp add: trace_written)

lemma effects_launched_written:
  "effects_since w (snd (launched (this, written sty keys env this w))) =
     (rejected_logs keys
       @ [Mkdirp (dirname (configFilename this)),
          AtomicWrite (configFilename this)
            (safeDump sty (filter (\<lambda>k. isAeadCipher (cipher k)) keys))])
     @ (start_logs this (written sty keys env this w)
       @ [Spawn (length (procs w)) (binaryFilename this) (commandArguments this)])"
  by (rule effects_since_append) (simp add: launched_simps trace_written)

lemma effects_refused_written:
  "effects_since w (snd (refused e (this, written sty keys env this w))) =
     (rejected_logs keys
       @ [Mkdirp (dirname (configFilename this)),
          AtomicWrite (configFilename this)
            (safeDump sty (filter (\<lambda>k. isAeadCipher (cipher k)) keys))])
     @ (start_logs this (written sty keys env this w)
       @ [SpawnThrows (binaryFilename this) (commandArguments this) e])"
  by (rule effects_since_append) (simp add: refused_simps trace_written)

lemma effects_kill_written:
  "effects_since w (kill p sg (written sty keys env this w)) =
     (rejected_logs keys
       @ [Mkdirp (dirname (configFilename this)),
          AtomicWrite (configFilename this)
            (safeDump sty (filter (\<lambda>k. isAeadCipher (cipher k)) keys))])
     @ [Kill p sg]"
  by (rule effects_since_append) (simp add: trace_written)

lemma exit_logged_simps:
  "procs (exit_logged code signal w) = procs w"
  "files (exit_logged code signal w) = files w"
  "spawn_requests (effects_since w (exit_logged code signal w)) = []"
  "kills (effects_since w (exit_logged code signal w)) = []"
  by (simp_all add: exit_logged_def logging_info_def emit_def effects_since_def)

lemma trace_exit_logged:
  "\<exists>l1 l2. trace (exit_logged code signal w) = trace w @ [LogInfo l1, LogInfo l2]"
  by (simp add: exit_logged_def logging_info_def emit_def)

lemma onExit_returns:
  assumes "spawn_error fault (binaryFilename this) = None"
  shows "onExit code signal fault (this, w) = launched (this, exit_logged code signal w)"
  using start_returns [OF assms, of "exit_logged code signal w"]
  by (simp add: onExit_def exit_logged_def Let_def)

lemma onExit_throws:
  assumes "spawn_error fault (binaryFilename this) = Some e"
  shows "onExit code signal fault (this, w) =
           (this, emit (Uncaught e) (snd (refused e (this, exit_logged code signal w))))"
  using start_throws [OF assms, of "exit_logged code signal w"]
  by (simp add: onExit_def exit_logged_def Let_def refused_def)

lemma effects_launched_exit:
  "\<exists>l1 l2. effects_since w (snd (launched (this, exit_logged code signal (w\<lparr>procs := ps\<rparr>)))) =
     [LogInfo l1, LogInfo l2]
       @ start_logs this (exit_logged code signal (w\<lparr>procs := ps\<rparr>))
       @ [Spawn (length ps) (binaryFilename this) (commandArguments this)]"
proof -
  obtain l1 l2 where
    "trace (exit_logged code signal (w\<lparr>procs := ps\<rparr>)) = trace w @ [LogInfo l1, LogInfo l2]"
    using trace_exit_logged [of code signal "w\<lparr>procs := ps\<rparr>"] by auto
  then have "effects_since w (snd (launched (this, exit_logged code signal (w\<lparr>procs := ps\<rparr>)))) =
     [LogInfo l1, LogInfo l2]
       @ start_logs this (exit_logged code signal (w\<lparr>procs := ps\<rparr>))
       @ [Spawn (length ps) (binaryFilename this) (commandArguments this)]"
    by (intro effects_since_append) (simp add: launched_simps exit_logged_simps)
  then show ?thesis by blast
qed

lemma effects_refused_exit:
  "\<exists>l1 l2. effects_since w
       (emit (Uncaught e) (snd (refused e (this, exit_logged code signal (w\<lparr>procs := ps\<rparr>))))) =
     [LogInfo l1, LogInfo l2]
       @ start_logs this (exit_logged code signal (w\<lparr>procs := ps\<rparr>))
       @ [SpawnThrows (binaryFilename this) (commandArguments this) e, Uncaught e]"
proof -
  obtain l1 l2 where
    "trace (exit_logged code signal (w\<lparr>procs := ps\<rparr>)) = trace w @ [LogInfo l1, LogInfo l2]"
    using trace_exit_logged [of code signal "w\<lparr>procs := ps\<rparr>"] by auto
  then have "effects_since w
       (emit (Uncaught e) (snd (refused e (this, exit_logged code signal (w\<lparr>procs := ps\<rparr>))))) =
     [LogInfo l1, LogInfo l2]
       @ start_logs this (exit_logged code signal (w\<lparr>procs := ps\<rparr>))
       @ [SpawnThrows (binaryFilename this) (commandArguments this) e, Uncaught e]"
    by (intro effects_since_append) (simp add: refused_simps emit_def)
  then show ?thesis by blast
qed

lemma run_append:
  "run sty (xs @ ys) s = (case run sty xs s of None \<Rightarrow> None | Some s' \<Rightarrow> run sty ys s')"
  by (induction xs arbitrary: s) (simp_all split: option.splits)

lemma run_builders:
  assumes "\<forall>e \<in> set bs. is_builder e"
  shows "\<exists>this'. run sty bs (this, w) = Some (this', w)
          \<and> binaryFilename this' = binaryFilename this
          \<and> configFilename this' = configFilename this
          \<and> metricsLocation this' = metricsLocation this
          \<and> verbose this' = verbose this
          \<and> ssProcess this' = ssProcess this
          \<and> isReplayProtectionEnabled this'
              = (isReplayProtectionEnabled this \<or> EnableReplayProtection \<in> set bs)
          \<and> (ipCountryFilename this' = ipCountryFilename this
              \<or> (\<exists>f. ConfigureCountryMetrics f \<in> set bs \<and> ipCountryFilename this' = Some f))
          \<and> (ipAsnFilename this' = ipAsnFilename this
              \<or> (\<exists>f. ConfigureAsnMetrics f \<in> set bs \<and> ipAsnFilename this' = Some f))"
  using assms
proof (induction bs arbitrary: this)
  case Nil
  then show ?case by simp
next
  case (Cons e bs)
  then have bs: "\<forall>e \<in> set bs. is_builder e" and e: "is_builder e"
    by simp_all
  show ?case
  proof (cases e)
    case (ConfigureCountryMetrics f)
    from Cons.IH [OF bs, of "configureCountryMetrics f this"]
    show ?thesis
      unfolding ConfigureCountryMetrics
      by (simp add: configureCountryMetrics_def) blast
  next
    case (ConfigureAsnMetrics f)
    from Cons.IH [OF bs, of "configureAsnMetrics f this"]
    show ?thesis
      unfolding ConfigureAsnMetrics
      by (simp add: configureAsnMetrics_def) blast
  next
    case EnableReplayProtection
    from Cons.IH [OF bs, of "enableReplayProtection this"]
    show ?thesis
      unfolding EnableReplayProtection
      by (simp add: enableReplayProtection_def)
  qed (use e in simp_all)
qed

lemma commandArguments_replay:
  assumes "isReplayProtectionEnabled this"
  shows "last (commandArguments this) = ''--replay_history=10000''"
    and "''--replay_history=10000'' \<in> set (commandArguments this)"
  using assms by (simp_all add: commandArguments_def)

lemma commandArguments_no_replay:
  assumes "\<not> isReplayProtectionEnabled this"
  shows "set (commandArguments this)
           \<subseteq> {''-config'', configFilename this, ''-metrics'', metricsLocation this,
               ''-ip_country_db'', ''-ip_asn_db'', ''-verbose''}
             \<union> set_option (ipCountryFilename this) \<union> set_option (ipAsnFilename this)"
  using assms by (auto simp: commandArguments_def truthy_def split: option.splits)

lemma requests_update_without_handle:
  assumes "ssProcess this = None"
      and "mkdirp_throws env = None" and "write_fault env = None"
  shows "spawn_requests (effects_since w (snd (snd (update sty keys env (this, w)))))
           = [(binaryFilename this, commandArguments this)]"
    and "spawn_error (spawn_throws env) (binaryFilename this) = None \<longrightarrow>
           spawns (effects_since w (snd (snd (update sty keys env (this, w)))))
             = [(length (procs w), binaryFilename this, commandArguments this)]"
proof -
  show "spawn_requests (effects_since w (snd (snd (update sty keys env (this, w)))))
           = [(binaryFilename this, commandArguments this)]"
  proof (cases "spawn_error (spawn_throws env) (binaryFilename this)")
    case None
    show ?thesis
      unfolding update_launches [OF assms(2,3,1) None]
      by (simp add: effects_launched_written)
  next
    case (Some e)
    show ?thesis
      unfolding update_refused [OF assms(2,3,1) Some]
      by (simp add: effects_refused_written)
  qed
  show "spawn_error (spawn_throws env) (binaryFilename this) = None \<longrightarrow>
           spawns (effects_since w (snd (snd (update sty keys env (this, w)))))
             = [(length (procs w), binaryFilename this, commandArguments this)]"
  proof
    assume n: "spawn_error (spawn_throws env) (binaryFilename this) = None"
    show "spawns (effects_since w (snd (snd (update sty keys env (this, w)))))
             = [(length (procs w), binaryFilename this, commandArguments this)]"
      unfolding update_launches [OF assms(2,3,1) n]
      by (simp add: effects_launched_written)
  qed
qed

lemma constructor_simps [simp]:
  "binaryFilename (constructor b c v m) = b"
  "configFilename (constructor b c v m) = c"
  "verbose (constructor b c v m) = v"
  "metricsLocation (constructor b c v m) = m"
  "ipCountryFilename (constructor b c v m) = None"
  "ipAsnFilename (constructor b c v m) = None"
  "isReplayProtectionEnabled (constructor b c v m) = False"
  "ssProcess (constructor b c v m) = None"
  by (simp_all add: constructor_def)

lemma not_among:
  assumes "xs \<subseteq> {a1, c, a2, m, a3, a4, a5} \<union> A \<union> B"
      and "x \<notin> {a1, a2, a3, a4, a5}" and "c \<noteq> x" and "m \<noteq> x" and "x \<notin> A" and "x \<notin> B"
  shows "x \<notin> xs"
  using assms by auto

lemma flag_is_no_other_flag:
  "''--replay_history=10000''
     \<notin> {''-config'', ''-metrics'', ''-ip_country_db'', ''-ip_asn_db'', ''-verbose''}"
  by simp

subsection \<open>The supervision invariant\<close>

lemma supervised_iff:
  "supervised (this, w) \<longleftrightarrow>
     (ssProcess this = None \<longrightarrow> procs w = [])
   \<and> (\<forall>p. ssProcess this = Some p \<longrightarrow> Suc p = length (procs w))
   \<and> (\<forall>i < length (procs w). running (procs w ! i) \<longrightarrow> Suc i = length (procs w))"
  by (cases "ssProcess this") (auto simp: supervised_def)

lemma supervised_same_procs:
  assumes "supervised (this, w)" and "procs w' = procs w" and "ssProcess this' = ssProcess this"
  shows "supervised (this', w')"
  using assms by (simp add: supervised_iff)

lemma supervised_launched:
  assumes "\<forall>i < length (procs w). \<not> running (procs w ! i)"
  shows "supervised (launched (this, w))"
  using assms by (auto simp: supervised_iff launched_def nth_append)

lemma update_shape:
  "(\<exists>w'. snd (update sty keys env (this, w)) = (this, w') \<and> procs w' = procs w)
   \<or> (ssProcess this = None
      \<and> (\<exists>w1. snd (update sty keys env (this, w)) = launched (this, w1) \<and> procs w1 = procs w))"
proof (cases rule: update_cases [of env sty keys this w])
  case (refuse e)
  have "snd (update sty keys env (this, w))
          = (this, snd (refused e (this, written sty keys env this w)))"
    unfolding refuse(5) by (simp add: refused_def)
  moreover have "procs (snd (refused e (this, written sty keys env this w))) = procs w"
    by (simp add: refused_simps)
  ultimately show ?thesis by blast
next
  case launch
  have "procs (written sty keys env this w) = procs w" by simp
  with launch(3,5) show ?thesis by auto
qed simp_all

lemma supervised_update:
  assumes "supervised (this, w)"
  shows "supervised (snd (update sty keys env (this, w)))"
  using update_shape [of sty keys env this w]
proof (elim disjE exE conjE)
  fix w'
  assume "snd (update sty keys env (this, w)) = (this, w')" and "procs w' = procs w"
  with assms show ?thesis
    by (simp add: supervised_same_procs [of this w])
next
  fix w1
  assume n: "ssProcess this = None"
    and u: "snd (update sty keys env (this, w)) = launched (this, w1)" and p: "procs w1 = procs w"
  from assms n have "procs w = []" by (simp add: supervised_iff)
  with p have "\<forall>i < length (procs w1). \<not> running (procs w1 ! i)" by simp
  then show ?thesis unfolding u by (rule supervised_launched)
qed

lemma supervised_exit:
  assumes "supervised (this, w)" and "pid < length (procs w)" and "running (procs w ! pid)"
  shows "supervised (onExit code signal fault
           (this, w\<lparr>procs := (procs w)[pid := (procs w ! pid)\<lparr>running := False\<rparr>]\<rparr>))"
proof -
  let ?ps = "(procs w)[pid := (procs w ! pid)\<lparr>running := False\<rparr>]"
  let ?w1 = "exit_logged code signal (w\<lparr>procs := ?ps\<rparr>)"
  have none: "\<forall>i < length ?ps. \<not> running (?ps ! i)"
  proof (intro allI impI)
    fix i assume i: "i < length ?ps"
    show "\<not> running (?ps ! i)"
    proof (cases "i = pid")
      case True
      then show ?thesis using assms(2) by simp
    next
      case False
      from assms(1,2,3) have "Suc pid = length (procs w)" by (simp add: supervised_iff)
      moreover have "running (procs w ! i) \<longrightarrow> Suc i = length (procs w)"
        using assms(1) i by (simp add: supervised_iff)
      ultimately show ?thesis using False by auto
    qed
  qed
  have p1: "procs ?w1 = ?ps"
    by (simp add: exit_logged_simps)
  show ?thesis
  proof (cases "spawn_error fault (binaryFilename this)")
    case None
    have "supervised (launched (this, ?w1))"
      by (rule supervised_launched) (use none p1 in simp)
    then show ?thesis
      by (simp only: onExit_returns [OF None])
  next
    case (Some e)
    let ?w' = "emit (Uncaught e) (snd (refused e (this, ?w1)))"
    have "procs ?w' = ?ps"
      by (simp add: emit_def refused_simps exit_logged_simps)
    with assms(1) none have "supervised (this, ?w')"
      by (auto simp: supervised_iff)
    then show ?thesis
      by (simp only: onExit_throws [OF Some])
  qed
qed

lemma supervised_step:
  assumes "supervised s" and "step sty e s = Some s'"
  shows "supervised s'"
proof -
  obtain this w where s: "s = (this, w)" by (cases s)
  show ?thesis
  proof (cases e)
    case (ConfigureCountryMetrics f)
    with assms s show ?thesis
      by (auto simp: configureCountryMetrics_def intro: supervised_same_procs)
  next
    case (ConfigureAsnMetrics f)
    with assms s show ?thesis
      by (auto simp: configureAsnMetrics_def intro: supervised_same_procs)
  next
    case EnableReplayProtection
    with assms s show ?thesis
      by (auto simp: enableReplayProtection_def intro: supervised_same_procs)
  next
    case (Update keys env)
    with assms s show ?thesis
      using supervised_update [of this w sty keys env] by auto
  next
    case (ProcError pid err)
    with assms s show ?thesis
      by (auto simp: onError_def logging_error_def emit_def split: if_splits
          intro: supervised_same_procs)
  next
    case (ProcExit pid code signal fault)
    with assms s show ?thesis
      using supervised_exit [of this w pid code signal fault] by (auto split: if_splits)
  next
    case (StdoutData pid d)
    with assms s show ?thesis
      by (auto simp: onStdoutData_def logging_info_def emit_def split: if_splits
          intro: supervised_same_procs)
  next
    case (StderrData pid d)
    with assms s show ?thesis
      by (auto simp: onStderrData_def logging_error_def emit_def split: if_splits
          intro: supervised_same_procs)
  qed
qed

lemma supervised_run:
  assumes "supervised s" and "run sty evs s = Some s'"
  shows "supervised s'"
  using assms
proof (induction evs arbitrary: s)
  case Nil
  then show ?case by simp
next
  case (Cons e evs)
  then show ?case
    by (auto split: option.splits dest: supervised_step)
qed

lemma at_most_one_satisfies:
  assumes "\<forall>i < length xs. P (xs ! i) \<longrightarrow> Suc i = length xs"
  shows "length (filter P xs) \<le> 1"
proof (cases xs rule: rev_cases)
  case Nil
  then show ?thesis by simp
next
  case (snoc ys y)
  have "\<not> P z" if "z \<in> set ys" for z
  proof -
    from that obtain i where i: "i < length ys" "ys ! i = z"
      by (auto simp: in_set_conv_nth)
    with assms snoc have "P z \<longrightarrow> Suc i = Suc (length ys)"
      by (auto simp: nth_append dest!: spec [of _ i])
    with i show ?thesis by simp
  qed
  then have "filter P ys = []" by (simp add: filter_empty_conv)
  with snoc show ?thesis by simp
qed

lemma supervised_live:
  assumes "supervised (this, w)"
  shows "live w \<le> 1"
  unfolding live_def using assms by (intro at_most_one_satisfies) (simp add: supervised_iff)

lemma supervised_constructor:
  assumes "procs w0 = []"
  shows "supervised (constructor b c v m, w0)"
  using assms by (simp add: supervised_iff)

lemma example_run_result:
  "\<exists>this w. run plain example_run (server0, world0) = Some (this, w)
     \<and> map running (procs w) = [False, False, True] \<and> ssProcess this = Some 2"
  by (simp add: example_run_def update_def writeConfigFile_ok writeConfigFile_mkdirp_throws
      start_returns launched_def onExit_def
      onStdoutData_def logging_info_def emit_def kill_def written_def io_mkdirp_fails_def
      server0_def world0_def constructor_def Let_def)

section \<open>Properties of the component\<close>

text \<open>
  C1. When the write goes through, the configuration file holds the dump of
  \<open>keysJson.keys\<close>; a key passed to \<open>update\<close> is in that list exactly when its cipher name
  ends, case-insensitively, in \<open>GCM\<close> or in \<open>Poly1305\<close>, whatever the other keys are, and
  the list holds nothing but keys that were passed. The call then succeeds, unless it
  has to start the subprocess and \<open>spawn\<close> throws.
\<close>

theorem update_writes_exactly_the_aead_keys:
  assumes "mkdirp_throws env = None" and "write_fault env = None"
  shows "(fst (update sty keys env (this, w)) = Resolved
            \<longleftrightarrow> (ssProcess this = None
                   \<longrightarrow> spawn_error (spawn_throws env) (binaryFilename this) = None))
       \<and> files (snd (snd (update sty keys env (this, w)))) (configFilename this)
           = Some (safeDump sty (fst (pushKeys keys ([], w))))
       \<and> (\<forall>k \<in> set keys.
             k \<in> set (fst (pushKeys keys ([], w))) \<longleftrightarrow> spec_accepts_cipher (cipher k))
       \<and> set (fst (pushKeys keys ([], w))) \<subseteq> set keys"
proof -
  have "fst (update sty keys env (this, w)) = Resolved
            \<longleftrightarrow> (ssProcess this = None
                   \<longrightarrow> spawn_error (spawn_throws env) (binaryFilename this) = None)"
    using assms by (simp add: outcome_update_eq split: option.splits)
  moreover have "files (snd (snd (update sty keys env (this, w)))) (configFilename this)
           = Some (safeDump sty (fst (pushKeys keys ([], w))))"
    using assms by (simp add: files_update_ok pushKeys_eq)
  moreover have "\<forall>k \<in> set keys.
             k \<in> set (fst (pushKeys keys ([], w))) \<longleftrightarrow> spec_accepts_cipher (cipher k)"
    by (simp add: pushKeys_eq isAeadCipher_spec)
  moreover have "set (fst (pushKeys keys ([], w))) \<subseteq> set keys"
    by (simp add: pushKeys_eq)
  ultimately show ?thesis by blast
qed

theorem update_writes_exactly_the_aead_keys_witness:
  "mkdirp_throws io_ok = None \<and> write_fault io_ok = None
     \<and> fst (update plain [alice, carol, bob] io_ok (server0, world0)) = Resolved
     \<and> files (snd (snd (update plain [alice, carol, bob] io_ok (server0, world0))))
          ''/state/config.yml'' = Some (safeDump plain [alice, bob])
     \<and> spec_accepts_cipher (cipher alice) \<and> \<not> spec_accepts_cipher (cipher carol)"
  using update_writes_exactly_the_aead_keys
          [of io_ok plain "[alice, carol, bob]" server0 world0]
  by (simp add: accepts_examples logging_error_def emit_def distinct_examples
      distinct_examples [symmetric])




text \<open>
  C4. The file at the configured path after a call of \<open>update\<close> is the old content or
  the whole new text. When \<open>mkdirp.sync\<close> throws or the file writer fails, it is the old
  content, and the promise of \<open>update\<close> is rejected.
\<close>

theorem failed_update_keeps_the_old_file:
  "(files (snd (snd (update sty keys env (this, w)))) (configFilename this)
        = files w (configFilename this)
      \<or> files (snd (snd (update sty keys env (this, w)))) (configFilename this)
        = Some (safeDump sty (fst (pushKeys keys ([], w)))))
   \<and> (mkdirp_throws env \<noteq> None \<or> write_fault env \<noteq> None \<longrightarrow>
        files (snd (snd (update sty keys env (this, w)))) (configFilename this)
          = files w (configFilename this)
        \<and> (\<exists>e. fst (update sty keys env (this, w)) = Rejected e))"
proof (cases "mkdirp_throws env \<noteq> None \<or> write_fault env \<noteq> None")
  case True
  then show ?thesis
    using files_update_fault [OF True] outcome_update by blast
next
  case False
  then have "files (snd (snd (update sty keys env (this, w)))) (configFilename this)
        = Some (safeDump sty (fst (pushKeys keys ([], w))))"
    by (simp add: files_update_ok pushKeys_eq)
  with False show ?thesis by blast
qed

text \<open>A second update whose write fails half way, after a first one that succeeded.\<close>

theorem failed_update_keeps_the_old_file_witness:
  "write_fault io_disk_full \<noteq> None
   \<and> files (snd started) (configFilename (fst started)) = Some (safeDump plain [alice])
   \<and> files (snd (snd (update plain [alice, bob] io_disk_full started)))
        (configFilename (fst started)) = Some (safeDump plain [alice])
   \<and> (\<exists>e. fst (update plain [alice, bob] io_disk_full started) = Rejected e)"
proof -
  have f: "write_fault io_disk_full \<noteq> None"
    by (simp add: io_disk_full_def)
  have s: "files (snd started) (configFilename (fst started)) = Some (safeDump plain [alice])"
  proof -
    have "files (snd (snd (update plain [alice] io_ok (server0, world0))))
            ''/state/config.yml'' = Some (safeDump plain [alice])"
      using files_update_ok [of io_ok plain "[alice]" server0 world0]
      by (simp add: accepts_examples)
    then have "files (snd started) ''/state/config.yml'' = Some (safeDump plain [alice])"
      by (simp only: started_def)
    then show ?thesis by simp
  qed
  show ?thesis
    using failed_update_keeps_the_old_file
            [of plain "[alice, bob]" io_disk_full "fst started" "snd started"] f s
    by simp
qed

text \<open>
  C2 as first stated, with the key list sorted, does not hold: the same two keys in the
  other order give another text, since the key list follows the input.
\<close>

theorem permuted_keys_give_another_file:
  "set [alice, bob] = set [bob, alice]
   \<and> fst (update plain [alice, bob] io_ok (server0, world0)) = Resolved
   \<and> fst (update plain [bob, alice] io_ok (server0, world0)) = Resolved
   \<and> files (snd (snd (update plain [alice, bob] io_ok (server0, world0)))) ''/state/config.yml''
       \<noteq> files (snd (snd (update plain [bob, alice] io_ok (server0, world0)))) ''/state/config.yml''"
proof -
  have a: "files (snd (snd (update plain [alice, bob] io_ok (server0, world0))))
             ''/state/config.yml'' = Some (safeDump plain [alice, bob])"
    using files_update_ok [of io_ok plain "[alice, bob]" server0 world0]
    by (simp add: accepts_examples)
  have b: "files (snd (snd (update plain [bob, alice] io_ok (server0, world0))))
             ''/state/config.yml'' = Some (safeDump plain [bob, alice])"
    using files_update_ok [of io_ok plain "[bob, alice]" server0 world0]
    by (simp add: accepts_examples)
  show ?thesis
    unfolding a b using safeDump_order_matters by (auto simp: outcome_update_eq)
qed

text \<open>
  C2. The key list of the file is \<open>keysJson.keys\<close>: the accepted keys in the order of the
  input, not sorted by identifier. Two successful writes for the same configuration
  path, whose inputs hold accepted keys with the same fields in the same order and in
  which no accepted key is one object met twice, write the same text, whatever the
  worlds they start from. (An object met twice is written as an alias, so it gives
  another text than two objects with the same fields.)
\<close>

theorem same_accepted_sequence_gives_the_same_file:
  assumes "mkdirp_throws env = None" and "write_fault env = None"
      and "mkdirp_throws env' = None" and "write_fault env' = None"
      and "configFilename this' = configFilename this"
      and "map key_fields (filter (\<lambda>k. isAeadCipher (cipher k)) keys')
             = map key_fields (filter (\<lambda>k. isAeadCipher (cipher k)) keys)"
      and "distinct (map address (filter (\<lambda>k. isAeadCipher (cipher k)) keys))"
      and "distinct (map address (filter (\<lambda>k. isAeadCipher (cipher k)) keys'))"
  shows "files (snd (snd (update sty keys env (this, w)))) (configFilename this)
           = Some (safeDump sty (filter (\<lambda>k. isAeadCipher (cipher k)) keys))
       \<and> files (snd (snd (update sty keys' env' (this', w')))) (configFilename this)
           = files (snd (snd (update sty keys env (this, w)))) (configFilename this)"
proof -
  have same: "safeDump sty (filter (\<lambda>k. isAeadCipher (cipher k)) keys')
                = safeDump sty (filter (\<lambda>k. isAeadCipher (cipher k)) keys)"
    using assms(6,7,8) by (rule safeDump_same_fields)
  show ?thesis
    using assms(1-5) same
      files_update_ok [of env sty keys this w] files_update_ok [of env' sty keys' this' w']
    by simp
qed

text \<open>
  An update of a new object with Alice's and Bob's keys, and an update in the state after
  a first update, with Carol's key (refused), Alice's key and another object that has the
  fields of Bob's key: the accepted keys have the same fields in the same order, no
  object comes twice, and both updates write the same text.
\<close>

theorem same_accepted_sequence_gives_the_same_file_witness:
  "map key_fields (filter (\<lambda>k. isAeadCipher (cipher k)) [carol, alice, bob_copy])
     = map key_fields (filter (\<lambda>k. isAeadCipher (cipher k)) [alice, bob])
   \<and> distinct (map address (filter (\<lambda>k. isAeadCipher (cipher k)) [alice, bob]))
   \<and> distinct (map address (filter (\<lambda>k. isAeadCipher (cipher k)) [carol, alice, bob_copy]))
   \<and> files (snd (snd (update plain [carol, alice, bob_copy] io_ok started))) ''/state/config.yml''
     = files (snd (snd (update plain [alice, bob] io_ok (server0, world0)))) ''/state/config.yml''
   \<and> files (snd (snd (update plain [alice, bob] io_ok (server0, world0)))) ''/state/config.yml''
     = Some (safeDump plain [alice, bob])"
proof -
  have c: "configFilename (fst started) = configFilename server0"
    by simp
  have f: "map key_fields (filter (\<lambda>k. isAeadCipher (cipher k)) [carol, alice, bob_copy])
     = map key_fields (filter (\<lambda>k. isAeadCipher (cipher k)) [alice, bob])"
    by (simp add: accepts_examples key_fields_def bob_copy_def)
  have d: "distinct (map address (filter (\<lambda>k. isAeadCipher (cipher k)) [alice, bob]))"
    by (simp add: accepts_examples address_examples)
  have d': "distinct (map address (filter (\<lambda>k. isAeadCipher (cipher k)) [carol, alice, bob_copy]))"
    by (simp add: accepts_examples address_examples)
  note t = same_accepted_sequence_gives_the_same_file
            [OF io_ok_simps(1,2) io_ok_simps(1,2) c f d d',
             where sty = plain and w = world0 and w' = "snd started"]
  have one: "files (snd (snd (update plain [alice, bob] io_ok (server0, world0))))
               ''/state/config.yml'' = Some (safeDump plain [alice, bob])"
    using t [THEN conjunct1] by (simp add: accepts_examples)
  have two: "files (snd (snd (update plain [carol, alice, bob_copy] io_ok started)))
               ''/state/config.yml''
             = files (snd (snd (update plain [alice, bob] io_ok (server0, world0))))
                 ''/state/config.yml''"
    using t [THEN conjunct2] by simp
  from f d d' two one show ?thesis
    by (intro conjI)
qed

text \<open>
  C10. \<open>keysJson.keys\<close> is the input with the refused keys left out, so the accepted keys
  keep their relative order; the file written is the dump of that list: one block per
  key in the order of the list, when no key is one object met twice; within a block
  the fields come in the order of their names.
\<close>

theorem accepted_keys_keep_their_order:
  assumes "mkdirp_throws env = None" and "write_fault env = None"
  shows "fst (pushKeys keys ([], w)) = filter (\<lambda>k. isAeadCipher (cipher k)) keys
       \<and> subseq (fst (pushKeys keys ([], w))) keys
       \<and> files (snd (snd (update sty keys env (this, w)))) (configFilename this)
           = Some (safeDump sty (fst (pushKeys keys ([], w))))
       \<and> (fst (pushKeys keys ([], w)) \<noteq> []
            \<and> distinct (map address (fst (pushKeys keys ([], w)))) \<longrightarrow>
            safeDump sty (fst (pushKeys keys ([], w)))
              = ''keys:'' @ newline @ concat (map (writeKey sty) (fst (pushKeys keys ([], w)))))
       \<and> (\<forall>k \<in> set keys. map fst (sortKeys (key_props k)) = [''cipher'', ''id'', ''port'', ''secret''])"
  using assms
  by (simp add: pushKeys_eq files_update_ok safeDump_distinct sortKeys_key_props)

theorem accepted_keys_keep_their_order_witness:
  "fst (pushKeys [bob, carol, alice] ([], world0)) = [bob, alice]
   \<and> files (snd (snd (update plain [bob, carol, alice] io_ok (server0, world0)))) ''/state/config.yml''
       = Some (safeDump plain [bob, alice])
   \<and> safeDump plain [bob, alice] = ''keys:'' @ newline @ writeKey plain bob @ writeKey plain alice"
  using accepted_keys_keep_their_order [of io_ok "[bob, carol, alice]" world0 plain server0]
  by (simp add: accepts_examples address_examples logging_error_def emit_def)

text \<open>
  C5. A call of \<open>update\<close> on an object that has no subprocess handle yet, with a write that
  goes through, calls \<open>spawn\<close> exactly once: for the binary, with the arguments built by
  \<open>start\<close>, which begin with \<open>-config\<close>, the configuration path, \<open>-metrics\<close> and the metrics
  location. It sends no signal. When \<open>spawn\<close> returns, the call succeeds, one subprocess
  has been started and the handle names it; when \<open>spawn\<close> throws, the call fails and
  nothing has been started.
\<close>

theorem first_update_starts_one_subprocess:
  assumes "ssProcess this = None"
      and "mkdirp_throws env = None" and "write_fault env = None"
  shows "spawn_requests (effects_since w (snd (snd (update sty keys env (this, w)))))
           = [(binaryFilename this, commandArguments this)]
       \<and> take 4 (commandArguments this)
           = [''-config'', configFilename this, ''-metrics'', metricsLocation this]
       \<and> kills (effects_since w (snd (snd (update sty keys env (this, w))))) = []
       \<and> (spawn_error (spawn_throws env) (binaryFilename this) = None \<longrightarrow>
            fst (update sty keys env (this, w)) = Resolved
          \<and> spawns (effects_since w (snd (snd (update sty keys env (this, w)))))
              = [(length (procs w), binaryFilename this, commandArguments this)]
          \<and> ssProcess (fst (snd (update sty keys env (this, w)))) = Some (length (procs w))
          \<and> procs (snd (snd (update sty keys env (this, w))))
              = procs w @ [\<lparr>binary = binaryFilename this, argv = commandArguments this,
                             running = True\<rparr>])
       \<and> (spawn_error (spawn_throws env) (binaryFilename this) \<noteq> None \<longrightarrow>
            (\<exists>e. fst (update sty keys env (this, w)) = Rejected e)
          \<and> spawns (effects_since w (snd (snd (update sty keys env (this, w))))) = []
          \<and> ssProcess (fst (snd (update sty keys env (this, w)))) = None
          \<and> procs (snd (snd (update sty keys env (this, w)))) = procs w)"
proof (cases "spawn_error (spawn_throws env) (binaryFilename this)")
  case None
  note u = update_launches [OF assms(2,3,1) None, of sty keys w]
  show ?thesis
    unfolding u using None assms(1)
    by (simp add: effects_launched_written take4_commandArguments launched_simps)
next
  case (Some e)
  note u = update_refused [OF assms(2,3,1) Some, of sty keys w]
  show ?thesis
    unfolding u using Some assms(1)
    by (simp add: effects_refused_written take4_commandArguments refused_simps)
qed

theorem first_update_starts_one_subprocess_witness:
  "ssProcess server0 = None
   \<and> spawn_error (spawn_throws io_ok) (binaryFilename server0) = None
   \<and> fst (update plain [alice] io_ok (server0, world0)) = Resolved
   \<and> spawn_requests (effects_since world0 (snd (snd (update plain [alice] io_ok (server0, world0)))))
       = [(''/opt/outline-ss-server'',
           [''-config'', ''/state/config.yml'', ''-metrics'', ''127.0.0.1:9092'', ''-verbose''])]
   \<and> spawns (effects_since world0 (snd (snd (update plain [alice] io_ok (server0, world0)))))
       = [(0, ''/opt/outline-ss-server'',
           [''-config'', ''/state/config.yml'', ''-metrics'', ''127.0.0.1:9092'', ''-verbose''])]"
  using first_update_starts_one_subprocess
          [where this = server0 and env = io_ok and sty = plain and keys = "[alice]"
             and w = world0]
  by simp

text \<open>
  C6 as first stated, with a signal in every update while a subprocess exists, does not
  hold: when \<open>mkdirp.sync\<close> throws in such an update, the promise is rejected and no
  signal is sent.
\<close>

theorem failed_update_sends_no_signal:
  "ssProcess (fst started) = Some 0
   \<and> running (procs (snd started) ! 0)
   \<and> fst (update plain [bob] io_mkdirp_fails started) = Rejected (Error ''EACCES'')
   \<and> kills (effects_since (snd started) (snd (snd (update plain [bob] io_mkdirp_fails started))))
       = []"
proof -
  have m: "mkdirp_throws io_mkdirp_fails = Some (Error ''EACCES'')"
    by (simp add: io_mkdirp_fails_def)
  have u: "update plain [bob] io_mkdirp_fails (fst started, snd started) =
        (Rejected (Error ''EACCES''), fst started,
         (snd started)\<lparr>trace := trace (snd started) @ rejected_logs [bob]
                           @ [Mkdirp (dirname (configFilename (fst started)))]\<rparr>)"
    by (rule update_mkdirp_throws [OF m])
  show ?thesis
    using u by (simp add: started_handle started_procs effects_since_def)
qed

text \<open>
  C6. In every call of \<open>update\<close> the effects split in two parts: the first holds no call
  of \<open>spawn\<close> and no signal; when the second is not empty, the first ends with the call of
  the file writer, the write went through and the file holds the new text. A call made
  while a handle exists never calls \<open>spawn\<close> and keeps the handle. When its write goes
  through, it sends \<open>SIGHUP\<close> to that handle and succeeds; when \<open>mkdirp.sync\<close> throws or the
  write fails, it sends no signal and fails.
\<close>

theorem update_writes_first_and_reloads_a_started_subprocess:
  "(\<exists>pre req.
       effects_since w (snd (snd (update sty keys env (this, w)))) = pre @ req
     \<and> spawn_requests pre = [] \<and> spawns pre = [] \<and> kills pre = []
     \<and> (req \<noteq> [] \<longrightarrow>
          pre \<noteq> []
        \<and> last pre = AtomicWrite (configFilename this) (safeDump sty (fst (pushKeys keys ([], w))))
        \<and> files (snd (snd (update sty keys env (this, w)))) (configFilename this)
            = Some (safeDump sty (fst (pushKeys keys ([], w))))
        \<and> mkdirp_throws env = None \<and> write_fault env = None))
   \<and> (ssProcess this = Some p \<longrightarrow>
         spawn_requests (effects_since w (snd (snd (update sty keys env (this, w))))) = []
       \<and> spawns (effects_since w (snd (snd (update sty keys env (this, w))))) = []
       \<and> procs (snd (snd (update sty keys env (this, w)))) = procs w
       \<and> ssProcess (fst (snd (update sty keys env (this, w)))) = Some p
       \<and> (mkdirp_throws env = None \<and> write_fault env = None \<longrightarrow>
            fst (update sty keys env (this, w)) = Resolved
          \<and> kills (effects_since w (snd (snd (update sty keys env (this, w)))))
              = [(p, ''SIGHUP'')])
       \<and> (mkdirp_throws env \<noteq> None \<or> write_fault env \<noteq> None \<longrightarrow>
            (\<exists>e. fst (update sty keys env (this, w)) = Rejected e)
          \<and> kills (effects_since w (snd (snd (update sty keys env (this, w))))) = []))"
proof -
  let ?u = "update sty keys env (this, w)"
  let ?body = "safeDump sty (filter (\<lambda>k. isAeadCipher (cipher k)) keys)"
  let ?w1 = "written sty keys env this w"
  let ?wr = "rejected_logs keys
               @ [Mkdirp (dirname (configFilename this)), AtomicWrite (configFilename this) ?body]"
  let ?order = "\<lambda>pre req. effects_since w (snd (snd ?u)) = pre @ req
     \<and> spawn_requests pre = [] \<and> spawns pre = [] \<and> kills pre = []
     \<and> (req \<noteq> [] \<longrightarrow>
          pre \<noteq> []
        \<and> last pre = AtomicWrite (configFilename this) (safeDump sty (fst (pushKeys keys ([], w))))
        \<and> files (snd (snd ?u)) (configFilename this)
            = Some (safeDump sty (fst (pushKeys keys ([], w))))
        \<and> mkdirp_throws env = None \<and> write_fault env = None)"
  let ?reload = "ssProcess this = Some p \<longrightarrow>
         spawn_requests (effects_since w (snd (snd ?u))) = []
       \<and> spawns (effects_since w (snd (snd ?u))) = []
       \<and> procs (snd (snd ?u)) = procs w
       \<and> ssProcess (fst (snd ?u)) = Some p
       \<and> (mkdirp_throws env = None \<and> write_fault env = None \<longrightarrow>
            fst ?u = Resolved
          \<and> kills (effects_since w (snd (snd ?u))) = [(p, ''SIGHUP'')])
       \<and> (mkdirp_throws env \<noteq> None \<or> write_fault env \<noteq> None \<longrightarrow>
            (\<exists>e. fst ?u = Rejected e)
          \<and> kills (effects_since w (snd (snd ?u))) = [])"
  have "(\<exists>pre req. ?order pre req) \<and> ?reload"
  proof (cases rule: update_cases [of env sty keys this w])
    case (mkdirp e)
    have e: "effects_since w (snd (snd ?u))
               = rejected_logs keys @ [Mkdirp (dirname (configFilename this))]"
      unfolding mkdirp(2) by (simp add: effects_since_def)
    have "?order (rejected_logs keys @ [Mkdirp (dirname (configFilename this))]) []"
      using e by simp
    moreover have ?reload
      using e mkdirp(1) by (simp add: mkdirp(2))
    ultimately show ?thesis by blast
  next
    case (failed_write f e)
    have e: "effects_since w (snd (snd ?u)) = ?wr"
      unfolding failed_write(3) by (simp add: effects_written)
    have "?order ?wr []"
      using e by simp
    moreover have ?reload
      using e failed_write(2) by (simp add: failed_write(3))
    ultimately show ?thesis by blast
  next
    case (reload q)
    have f: "files ?w1 (configFilename this) = Some ?body"
      by (rule files_written_ok [OF reload(2)])
    have e: "effects_since w (snd (snd ?u)) = ?wr @ [Kill q ''SIGHUP'']"
      unfolding reload(4) by (simp add: effects_kill_written)
    have "?order ?wr [Kill q ''SIGHUP'']"
      using e f reload(1,2) by (simp add: reload(4) pushKeys_eq)
    moreover have ?reload
      using e reload(1,2,3) by (auto simp: reload(4))
    ultimately show ?thesis by blast
  next
    case launch
    have f: "files ?w1 (configFilename this) = Some ?body"
      by (rule files_written_ok [OF launch(2)])
    let ?req = "start_logs this ?w1
               @ [Spawn (length (procs w)) (binaryFilename this) (commandArguments this)]"
    have e: "effects_since w (snd (snd ?u)) = ?wr @ ?req"
      unfolding launch(5) by (simp add: effects_launched_written)
    have "?order ?wr ?req"
      using e f launch(1,2) by (simp add: launch(5) pushKeys_eq launched_simps)
    moreover have ?reload
      using launch(3) by simp
    ultimately show ?thesis by blast
  next
    case (refuse x)
    have f: "files ?w1 (configFilename this) = Some ?body"
      by (rule files_written_ok [OF refuse(2)])
    let ?req = "start_logs this ?w1
               @ [SpawnThrows (binaryFilename this) (commandArguments this) x]"
    have e: "effects_since w (snd (snd ?u)) = ?wr @ ?req"
      unfolding refuse(5) by (simp add: effects_refused_written)
    have "?order ?wr ?req"
      using e f refuse(1,2) by (simp add: refuse(5) pushKeys_eq refused_simps)
    moreover have ?reload
      using refuse(3) by simp
    ultimately show ?thesis by blast
  qed
  then show ?thesis .
qed

theorem update_writes_first_and_reloads_a_started_subprocess_witness:
  "ssProcess (fst started) = Some 0
   \<and> spawn_requests (effects_since (snd started) (snd (snd (update plain [bob] io_ok started))))
       = []
   \<and> procs (snd (snd (update plain [bob] io_ok started))) = procs (snd started)
   \<and> fst (update plain [bob] io_ok started) = Resolved
   \<and> kills (effects_since (snd started) (snd (snd (update plain [bob] io_ok started))))
       = [(0, ''SIGHUP'')]
   \<and> mkdirp_throws io_mkdirp_fails \<noteq> None
   \<and> (\<exists>e. fst (update plain [bob] io_mkdirp_fails started) = Rejected e)"
proof -
  note ok = update_writes_first_and_reloads_a_started_subprocess
          [where w = "snd started" and sty = plain and keys = "[bob]" and env = io_ok
             and this = "fst started" and p = 0,
           THEN conjunct2, THEN mp, OF started_handle]
  note bad = update_writes_first_and_reloads_a_started_subprocess
          [where w = "snd started" and sty = plain and keys = "[bob]"
             and env = io_mkdirp_fails and this = "fst started" and p = 0,
           THEN conjunct2, THEN mp, OF started_handle]
  have m: "mkdirp_throws io_mkdirp_fails \<noteq> None"
    by (simp add: io_mkdirp_fails_def)
  have rejected: "\<exists>e. fst (update plain [bob] io_mkdirp_fails started) = Rejected e"
    using bad m by simp
  show ?thesis
    using ok started_handle m rejected by simp
qed

text \<open>
  C7. The exit event of a running subprocess, with any code and any signal, is answered
  by the exit handler: two log lines and one call of \<open>start\<close>. It calls \<open>spawn\<close> exactly
  once, for the same binary with the arguments that \<open>start\<close> builds from the object, and
  sends no signal. When \<open>spawn\<close> returns, one subprocess has been started and the handle
  names it; when \<open>spawn\<close> throws, nothing has been started and the object is as it was.
\<close>

theorem exit_triggers_one_restart:
  assumes "pid < length (procs w)" and "running (procs w ! pid)"
  shows "\<exists>this' w'.
           step sty (ProcExit pid code signal fault) (this, w) = Some (this', w')
         \<and> spawn_requests (effects_since w w')
             = [(binaryFilename this, commandArguments this)]
         \<and> kills (effects_since w w') = []
         \<and> (spawn_error fault (binaryFilename this) = None \<longrightarrow>
              start fault
                (this, exit_logged code signal
                   (w\<lparr>procs := (procs w)[pid := (procs w ! pid)\<lparr>running := False\<rparr>]\<rparr>))
                = (None, (this', w'))
            \<and> spawns (effects_since w w')
                = [(length (procs w), binaryFilename this, commandArguments this)]
            \<and> ssProcess this' = Some (length (procs w))
            \<and> procs w' = (procs w)[pid := (procs w ! pid)\<lparr>running := False\<rparr>]
                           @ [\<lparr>binary = binaryFilename this, argv = commandArguments this,
                                running = True\<rparr>])
         \<and> (spawn_error fault (binaryFilename this) \<noteq> None \<longrightarrow>
              spawns (effects_since w w') = []
            \<and> this' = this
            \<and> procs w' = (procs w)[pid := (procs w ! pid)\<lparr>running := False\<rparr>])"
proof (cases "spawn_error fault (binaryFilename this)")
  case None
  let ?ps = "(procs w)[pid := (procs w ! pid)\<lparr>running := False\<rparr>]"
  let ?w1 = "exit_logged code signal (w\<lparr>procs := ?ps\<rparr>)"
  obtain this' w' where l: "launched (this, ?w1) = (this', w')"
    by (cases "launched (this, ?w1)")
  have s: "step sty (ProcExit pid code signal fault) (this, w) = Some (this', w')"
    using assms by (simp add: onExit_returns [OF None] l)
  have st: "start fault (this, ?w1) = (None, (this', w'))"
    using start_returns [OF None, of ?w1] l by simp
  obtain l1 l2 where "effects_since w (snd (launched (this, ?w1))) =
     [LogInfo l1, LogInfo l2] @ start_logs this ?w1
       @ [Spawn (length ?ps) (binaryFilename this) (commandArguments this)]"
    using effects_launched_exit [of w this code signal ?ps] by auto
  then have e: "effects_since w w' =
     [LogInfo l1, LogInfo l2] @ start_logs this ?w1
       @ [Spawn (length (procs w)) (binaryFilename this) (commandArguments this)]"
    unfolding l by simp
  have o: "ssProcess this' = Some (length (procs w))"
    using launched_simps(1) [of this ?w1] unfolding l by (simp add: exit_logged_simps)
  have q: "procs w' = ?ps @ [\<lparr>binary = binaryFilename this, argv = commandArguments this,
                             running = True\<rparr>]"
    using launched_simps(3) [of this ?w1] unfolding l by (simp add: exit_logged_simps)
  have r: "spawn_requests (effects_since w w') = [(binaryFilename this, commandArguments this)]"
    and k: "kills (effects_since w w') = []"
    and sp: "spawns (effects_since w w')
               = [(length (procs w), binaryFilename this, commandArguments this)]"
    unfolding e by simp_all
  from s r k st sp o q None show ?thesis
    by (intro exI [of _ this'] exI [of _ w']) simp
next
  case (Some e)
  let ?ps = "(procs w)[pid := (procs w ! pid)\<lparr>running := False\<rparr>]"
  let ?w1 = "exit_logged code signal (w\<lparr>procs := ?ps\<rparr>)"
  let ?w' = "emit (Uncaught e) (snd (refused e (this, ?w1)))"
  have s: "step sty (ProcExit pid code signal fault) (this, w) = Some (this, ?w')"
    using assms by (simp add: onExit_throws [OF Some])
  obtain l1 l2 where e: "effects_since w ?w' =
     [LogInfo l1, LogInfo l2] @ start_logs this ?w1
       @ [SpawnThrows (binaryFilename this) (commandArguments this) e, Uncaught e]"
    using effects_refused_exit [of w e this code signal ?ps] by auto
  have q: "procs ?w' = ?ps"
    by (simp add: emit_def refused_simps exit_logged_simps)
  have r: "spawn_requests (effects_since w ?w') = [(binaryFilename this, commandArguments this)]"
    and k: "kills (effects_since w ?w') = []"
    and sp: "spawns (effects_since w ?w') = []"
    unfolding e by simp_all
  from s r k sp q Some show ?thesis
    by (intro exI [of _ this] exI [of _ ?w']) simp
qed

theorem exit_triggers_one_restart_witness:
  "0 < length (procs (snd started)) \<and> running (procs (snd started) ! 0)
   \<and> (\<exists>this' w'.
         step plain (ProcExit 0 (Some 137) (Some ''SIGKILL'') None) (fst started, snd started)
           = Some (this', w')
       \<and> spawn_requests (effects_since (snd started) w')
           = [(''/opt/outline-ss-server'',
               [''-config'', ''/state/config.yml'', ''-metrics'', ''127.0.0.1:9092'',
                ''-verbose''])]
       \<and> spawns (effects_since (snd started) w')
           = [(1, ''/opt/outline-ss-server'',
               [''-config'', ''/state/config.yml'', ''-metrics'', ''127.0.0.1:9092'',
                ''-verbose''])]
       \<and> ssProcess this' = Some 1)"
proof -
  have h: "0 < length (procs (snd started))" "running (procs (snd started) ! 0)"
    by (simp_all add: started_procs)
  have n: "spawn_error None (binaryFilename (fst started)) = None"
    by simp
  from exit_triggers_one_restart
         [OF h, where sty = plain and code = "Some 137" and signal = "Some ''SIGKILL''"
            and fault = None and this = "fst started"]
  obtain this' w' where
    "step plain (ProcExit 0 (Some 137) (Some ''SIGKILL'') None) (fst started, snd started)
       = Some (this', w')"
    "spawn_requests (effects_since (snd started) w')
       = [(binaryFilename (fst started), commandArguments (fst started))]"
    "spawn_error None (binaryFilename (fst started)) = None \<longrightarrow>
       start None
         (fst started, exit_logged (Some 137) (Some ''SIGKILL'')
            ((snd started)\<lparr>procs := (procs (snd started))
                [0 := (procs (snd started) ! 0)\<lparr>running := False\<rparr>]\<rparr>))
         = (None, (this', w'))
     \<and> spawns (effects_since (snd started) w')
         = [(length (procs (snd started)), binaryFilename (fst started),
             commandArguments (fst started))]
     \<and> ssProcess this' = Some (length (procs (snd started)))
     \<and> procs w' = (procs (snd started))[0 := (procs (snd started) ! 0)\<lparr>running := False\<rparr>]
                    @ [\<lparr>binary = binaryFilename (fst started),
                         argv = commandArguments (fst started), running = True\<rparr>]"
    by (elim exE conjE)
  with n show ?thesis
    using h by (auto simp: started_procs)
qed

text \<open>
  C8. A new object is configured by any calls of the builder methods and then updated for
  the first time, with a write that goes through. The update calls \<open>spawn\<close> once, and a
  subprocess is started with the arguments of that call when \<open>spawn\<close> returns. When
  \<open>enableReplayProtection\<close> was among the calls, the arguments end with
  \<open>--replay_history=10000\<close>. When it was not, every argument is one of the other flags, the
  configuration path, the metrics location or a file name given to a builder method: no
  replay argument is added, and the text \<open>--replay_history=10000\<close> is not among the
  arguments unless the owner passed it as one of those names.
\<close>

theorem replay_history_argument_follows_the_builder:
  assumes "\<forall>e \<in> set bs. is_builder e"
      and "mkdirp_throws env = None" and "write_fault env = None"
  shows "\<exists>this' w' args.
           run sty (bs @ [Update keys env]) (constructor b c v m, w) = Some (this', w')
         \<and> spawn_requests (effects_since w w') = [(b, args)]
         \<and> (spawn_error (spawn_throws env) b = None \<longrightarrow>
               spawns (effects_since w w') = [(length (procs w), b, args)])
         \<and> (EnableReplayProtection \<in> set bs \<longrightarrow>
               ''--replay_history=10000'' \<in> set args \<and> last args = ''--replay_history=10000'')
         \<and> (EnableReplayProtection \<notin> set bs \<longrightarrow>
               set args \<subseteq> {''-config'', c, ''-metrics'', m,
                             ''-ip_country_db'', ''-ip_asn_db'', ''-verbose''}
                           \<union> {f. ConfigureCountryMetrics f \<in> set bs}
                           \<union> {f. ConfigureAsnMetrics f \<in> set bs})
         \<and> (EnableReplayProtection \<notin> set bs
              \<and> c \<noteq> ''--replay_history=10000'' \<and> m \<noteq> ''--replay_history=10000''
              \<and> ConfigureCountryMetrics ''--replay_history=10000'' \<notin> set bs
              \<and> ConfigureAsnMetrics ''--replay_history=10000'' \<notin> set bs \<longrightarrow>
               ''--replay_history=10000'' \<notin> set args)"
proof -
  let ?flag = "''--replay_history=10000''"
  obtain this1 where r: "run sty bs (constructor b c v m, w) = Some (this1, w)"
    and f: "binaryFilename this1 = b" "configFilename this1 = c" "metricsLocation this1 = m"
      "ssProcess this1 = None"
    and e: "isReplayProtectionEnabled this1 = (EnableReplayProtection \<in> set bs)"
    and ic: "ipCountryFilename this1 = None
            \<or> (\<exists>f. ConfigureCountryMetrics f \<in> set bs \<and> ipCountryFilename this1 = Some f)"
    and ia: "ipAsnFilename this1 = None
            \<or> (\<exists>f. ConfigureAsnMetrics f \<in> set bs \<and> ipAsnFilename this1 = Some f)"
    using run_builders [OF assms(1), of sty "constructor b c v m" w] by auto
  let ?u = "update sty keys env (this1, w)"
  let ?args = "commandArguments this1"
  have run: "run sty (bs @ [Update keys env]) (constructor b c v m, w)
               = Some (fst (snd ?u), snd (snd ?u))"
    by (simp add: run_append r)
  have rq: "spawn_requests (effects_since w (snd (snd ?u))) = [(b, ?args)]"
    using requests_update_without_handle(1) [OF f(4) assms(2,3), of w sty keys]
    unfolding f(1) .
  have sp: "spawn_error (spawn_throws env) b = None \<longrightarrow>
              spawns (effects_since w (snd (snd ?u))) = [(length (procs w), b, ?args)]"
    using requests_update_without_handle(2) [OF f(4) assms(2,3), of w sty keys]
    unfolding f(1) .
  have on: "EnableReplayProtection \<in> set bs \<longrightarrow> ?flag \<in> set ?args \<and> last ?args = ?flag"
    using commandArguments_replay [of this1] e by simp
  have sub: "set ?args \<subseteq> {''-config'', c, ''-metrics'', m,
                             ''-ip_country_db'', ''-ip_asn_db'', ''-verbose''}
                           \<union> {f. ConfigureCountryMetrics f \<in> set bs}
                           \<union> {f. ConfigureAsnMetrics f \<in> set bs}"
    if "EnableReplayProtection \<notin> set bs"
  proof -
    define base where "base = {''-config'', c, ''-metrics'', m,
                             ''-ip_country_db'', ''-ip_asn_db'', ''-verbose''}"
    have "\<not> isReplayProtectionEnabled this1" using e that by simp
    from commandArguments_no_replay [OF this]
    have A: "set ?args \<subseteq> base \<union> set_option (ipCountryFilename this1)
                       \<union> set_option (ipAsnFilename this1)"
      unfolding f base_def .
    have B: "set_option (ipCountryFilename this1) \<subseteq> {f. ConfigureCountryMetrics f \<in> set bs}"
      using ic by auto
    have C: "set_option (ipAsnFilename this1) \<subseteq> {f. ConfigureAsnMetrics f \<in> set bs}"
      using ia by auto
    from A B C
    have "set ?args \<subseteq> base \<union> {f. ConfigureCountryMetrics f \<in> set bs}
                       \<union> {f. ConfigureAsnMetrics f \<in> set bs}"
      by blast
    then show ?thesis unfolding base_def .
  qed
  have off: "?flag \<notin> set ?args"
    if "EnableReplayProtection \<notin> set bs \<and> c \<noteq> ?flag \<and> m \<noteq> ?flag
        \<and> ConfigureCountryMetrics ?flag \<notin> set bs \<and> ConfigureAsnMetrics ?flag \<notin> set bs"
  proof (rule not_among [OF sub flag_is_no_other_flag])
    show "EnableReplayProtection \<notin> set bs" using that by blast
    show "c \<noteq> ?flag" using that by blast
    show "m \<noteq> ?flag" using that by blast
    show "?flag \<notin> {f. ConfigureCountryMetrics f \<in> set bs}" using that by blast
    show "?flag \<notin> {f. ConfigureAsnMetrics f \<in> set bs}" using that by blast
  qed
  show ?thesis
  proof (intro exI conjI)
    show "run sty (bs @ [Update keys env]) (constructor b c v m, w)
               = Some (fst (snd ?u), snd (snd ?u))"
      by (rule run)
    show "spawn_requests (effects_since w (snd (snd ?u))) = [(b, ?args)]"
      by (rule rq)
    show "spawn_error (spawn_throws env) b = None \<longrightarrow>
              spawns (effects_since w (snd (snd ?u))) = [(length (procs w), b, ?args)]"
      by (rule sp)
    show "EnableReplayProtection \<in> set bs \<longrightarrow> ?flag \<in> set ?args \<and> last ?args = ?flag"
      by (rule on)
    show "EnableReplayProtection \<notin> set bs \<longrightarrow>
               set ?args \<subseteq> {''-config'', c, ''-metrics'', m,
                             ''-ip_country_db'', ''-ip_asn_db'', ''-verbose''}
                           \<union> {f. ConfigureCountryMetrics f \<in> set bs}
                           \<union> {f. ConfigureAsnMetrics f \<in> set bs}"
      by (rule impI) (rule sub)
    show "EnableReplayProtection \<notin> set bs
              \<and> c \<noteq> ?flag \<and> m \<noteq> ?flag
              \<and> ConfigureCountryMetrics ?flag \<notin> set bs
              \<and> ConfigureAsnMetrics ?flag \<notin> set bs \<longrightarrow>
               ?flag \<notin> set ?args"
      by (rule impI) (rule off)
  qed
qed

theorem replay_history_argument_follows_the_builder_witness:
  "(\<exists>this' w' args.
      run plain [ConfigureCountryMetrics ''/db/country.mmdb'', EnableReplayProtection,
                 Update [alice] io_ok]
        (constructor ''/opt/outline-ss-server'' ''/state/config.yml'' False ''127.0.0.1:9092'',
         world0) = Some (this', w')
      \<and> spawn_requests (effects_since world0 w') = [(''/opt/outline-ss-server'', args)]
      \<and> ''--replay_history=10000'' \<in> set args)
   \<and> (\<exists>this' w' args.
      run plain [ConfigureCountryMetrics ''/db/country.mmdb'', Update [alice] io_ok]
        (constructor ''/opt/outline-ss-server'' ''/state/config.yml'' False ''127.0.0.1:9092'',
         world0) = Some (this', w')
      \<and> spawn_requests (effects_since world0 w') = [(''/opt/outline-ss-server'', args)]
      \<and> ''--replay_history=10000'' \<notin> set args)"
proof (rule conjI)
  let ?on = "[ConfigureCountryMetrics ''/db/country.mmdb'', EnableReplayProtection]"
  let ?off = "[ConfigureCountryMetrics ''/db/country.mmdb'']"
  let ?s0 = "(constructor ''/opt/outline-ss-server'' ''/state/config.yml'' False
               ''127.0.0.1:9092'', world0)"
  have p: "length (procs world0) = 0" by (simp add: world0_def)
  have b_on: "\<forall>e \<in> set ?on. is_builder e" by simp
  have b_off: "\<forall>e \<in> set ?off. is_builder e" by simp
  from replay_history_argument_follows_the_builder
         [OF b_on io_ok_simps(1,2), of plain "[alice]" "''/opt/outline-ss-server''"
            "''/state/config.yml''" False "''127.0.0.1:9092''" world0]
  obtain this1 w1 args1 where
      r1: "run plain (?on @ [Update [alice] io_ok]) ?s0 = Some (this1, w1)"
    and s1: "spawn_requests (effects_since world0 w1) = [(''/opt/outline-ss-server'', args1)]"
    and on1: "EnableReplayProtection \<in> set ?on \<longrightarrow>
               ''--replay_history=10000'' \<in> set args1 \<and> last args1 = ''--replay_history=10000''"
    by (elim exE conjE)
  have "EnableReplayProtection \<in> set ?on" by simp
  with on1 have f1: "''--replay_history=10000'' \<in> set args1" by (elim impE conjE)
  show "\<exists>this' w' args.
      run plain [ConfigureCountryMetrics ''/db/country.mmdb'', EnableReplayProtection,
                 Update [alice] io_ok] ?s0 = Some (this', w')
      \<and> spawn_requests (effects_since world0 w') = [(''/opt/outline-ss-server'', args)]
      \<and> ''--replay_history=10000'' \<in> set args"
  proof (intro exI conjI)
    show "run plain [ConfigureCountryMetrics ''/db/country.mmdb'', EnableReplayProtection,
                 Update [alice] io_ok] ?s0 = Some (this1, w1)"
      using r1 by (simp only: append.simps)
    show "spawn_requests (effects_since world0 w1) = [(''/opt/outline-ss-server'', args1)]"
      by (rule s1)
    show "''--replay_history=10000'' \<in> set args1" by (rule f1)
  qed
  from replay_history_argument_follows_the_builder
         [OF b_off io_ok_simps(1,2), of plain "[alice]" "''/opt/outline-ss-server''"
            "''/state/config.yml''" False "''127.0.0.1:9092''" world0]
  obtain this2 w2 args2 where
      r2: "run plain (?off @ [Update [alice] io_ok]) ?s0 = Some (this2, w2)"
    and s2: "spawn_requests (effects_since world0 w2) = [(''/opt/outline-ss-server'', args2)]"
    and off2: "EnableReplayProtection \<notin> set ?off
              \<and> ''/state/config.yml'' \<noteq> ''--replay_history=10000''
              \<and> ''127.0.0.1:9092'' \<noteq> ''--replay_history=10000''
              \<and> ConfigureCountryMetrics ''--replay_history=10000'' \<notin> set ?off
              \<and> ConfigureAsnMetrics ''--replay_history=10000'' \<notin> set ?off \<longrightarrow>
               ''--replay_history=10000'' \<notin> set args2"
    by (elim exE conjE)
  have "EnableReplayProtection \<notin> set ?off
              \<and> ''/state/config.yml'' \<noteq> ''--replay_history=10000''
              \<and> ''127.0.0.1:9092'' \<noteq> ''--replay_history=10000''
              \<and> ConfigureCountryMetrics ''--replay_history=10000'' \<notin> set ?off
              \<and> ConfigureAsnMetrics ''--replay_history=10000'' \<notin> set ?off"
    by simp
  with off2 have f2: "''--replay_history=10000'' \<notin> set args2" by (elim impE)
  show "\<exists>this' w' args.
      run plain [ConfigureCountryMetrics ''/db/country.mmdb'', Update [alice] io_ok] ?s0
        = Some (this', w')
      \<and> spawn_requests (effects_since world0 w') = [(''/opt/outline-ss-server'', args)]
      \<and> ''--replay_history=10000'' \<notin> set args"
  proof (intro exI conjI)
    show "run plain [ConfigureCountryMetrics ''/db/country.mmdb'', Update [alice] io_ok] ?s0
            = Some (this2, w2)"
      using r2 by (simp only: append.simps)
    show "spawn_requests (effects_since world0 w2) = [(''/opt/outline-ss-server'', args2)]"
      by (rule s2)
    show "''--replay_history=10000'' \<notin> set args2" by (rule f2)
  qed
qed

text \<open>
  C9. In every state that a new object reaches by calls of its owner and events of its
  subprocesses, at most one subprocess is running: only the one spawned last can be
  running, and it is the one the handle names. The handle is absent exactly when nothing
  was spawned, and a call of \<open>update\<close> with a handle spawns nothing. Whenever a step
  spawns, every subprocess spawned earlier has exited.
\<close>

theorem at_most_one_live_subprocess:
  assumes "procs w0 = []"
      and "run sty evs (constructor b c v m, w0) = Some (this, w)"
  shows "live w \<le> 1
       \<and> (\<forall>i < length (procs w).
             running (procs w ! i) \<longrightarrow> Suc i = length (procs w) \<and> ssProcess this = Some i)
       \<and> (ssProcess this = None \<longleftrightarrow> procs w = [])
       \<and> (\<forall>keys env. ssProcess this \<noteq> None \<longrightarrow>
             procs (snd (snd (update sty keys env (this, w)))) = procs w)
       \<and> (\<forall>e this' w'.
             step sty e (this, w) = Some (this', w') \<and> length (procs w) < length (procs w') \<longrightarrow>
             (\<forall>i < length (procs w). \<not> running (procs w' ! i)))"
proof -
  have sup: "supervised (this, w)"
    using supervised_run [OF supervised_constructor [OF assms(1)] assms(2)] .
  have one: "live w \<le> 1"
    by (rule supervised_live [OF sup])
  have last: "\<forall>i < length (procs w).
             running (procs w ! i) \<longrightarrow> Suc i = length (procs w) \<and> ssProcess this = Some i"
    using sup by (cases "ssProcess this") (auto simp: supervised_iff)
  have handle: "ssProcess this = None \<longleftrightarrow> procs w = []"
    using sup by (cases "ssProcess this") (auto simp: supervised_iff)
  have upd: "\<forall>keys env. ssProcess this \<noteq> None \<longrightarrow>
             procs (snd (snd (update sty keys env (this, w)))) = procs w"
  proof (intro allI impI)
    fix keys env assume "ssProcess this \<noteq> None"
    with update_shape [of sty keys env this w]
    show "procs (snd (snd (update sty keys env (this, w)))) = procs w"
      by auto
  qed
  have repl: "\<forall>e this' w'.
             step sty e (this, w) = Some (this', w') \<and> length (procs w) < length (procs w') \<longrightarrow>
             (\<forall>i < length (procs w). \<not> running (procs w' ! i))"
  proof (intro allI impI)
    fix e this' w' i
    assume a: "step sty e (this, w) = Some (this', w') \<and> length (procs w) < length (procs w')"
      and i: "i < length (procs w)"
    from a have "supervised (this', w')"
      using supervised_step [OF sup] by blast
    then have "\<forall>j < length (procs w'). running (procs w' ! j) \<longrightarrow> Suc j = length (procs w')"
      by (simp add: supervised_iff)
    moreover from a i have "i < length (procs w')" and "Suc i \<noteq> length (procs w')"
      by simp_all
    ultimately show "\<not> running (procs w' ! i)"
      by blast
  qed
  from one last handle upd repl show ?thesis
    by (intro conjI)
qed


theorem at_most_one_live_subprocess_witness:
  "procs world0 = []
   \<and> (\<exists>this w. run plain example_run (server0, world0) = Some (this, w)
         \<and> map running (procs w) = [False, False, True]
         \<and> ssProcess this = Some 2
         \<and> live w \<le> 1)"
proof -
  have p: "procs world0 = []" by (simp add: world0_def)
  from example_run_result obtain this w where
      r: "run plain example_run (server0, world0) = Some (this, w)"
    and m: "map running (procs w) = [False, False, True]" and h: "ssProcess this = Some 2"
    by (elim exE conjE)
  have r': "run plain example_run
              (constructor ''/opt/outline-ss-server'' ''/state/config.yml'' True ''127.0.0.1:9092'',
               world0) = Some (this, w)"
    using r unfolding server0_def .
  have l: "live w \<le> 1"
    using at_most_one_live_subprocess [OF p r'] by (rule conjunct1)
  show ?thesis
    by (intro conjI exI) (rule p r m h l)+
qed

end
